theory Spec2Isabelle
  imports Complex_Main "HOL-Library.Log_Nat"
begin

section \<open>JavaScript numbers\<close>

text \<open>
  Every numeric variable of the reader is a JavaScript number, an IEEE-754 binary64 value.
  A finite double is a rational, so a number is modelled as a \<open>rat\<close>, and every arithmetic
  operation of the source is the exact operation followed by rounding to the nearest double
  (53 significant bits, ties to even), as the language defines it. Infinities, NaN, the sign
  of zero and the limits of the exponent range are outside the model: all quantities of the
  reader (word indices, milliseconds, pixels, words per minute) are far from those limits.
\<close>

type_synonym number = rat

text \<open>\<open>ilog2 x\<close> is the binary exponent of a positive \<open>x\<close>: \<open>2 ^ ilog2 x \<le> x < 2 ^ (ilog2 x + 1)\<close>.\<close>

definition ilog2 :: "rat \<Rightarrow> int" where
  "ilog2 x = (case quotient_of x of (p, q) \<Rightarrow>
     let d = bitlen p - bitlen q in if 2 powi d \<le> x then d else d - 1)"

definition round_half_even :: "rat \<Rightarrow> int" where
  "round_half_even q = (let f = \<lfloor>q\<rfloor>; r = q - of_int f in
     if r < 1/2 then f else if 1/2 < r then f + 1 else if even f then f else f + 1)"

text \<open>Rounding to binary64: the significand is scaled into \<open>[2^52, 2^53)\<close> and rounded.\<close>

definition fl :: "rat \<Rightarrow> number" where
  "fl x = (if x = 0 then 0 else
     let e = ilog2 \<bar>x\<bar> - 52
     in sgn x * of_int (round_half_even (\<bar>x\<bar> / 2 powi e)) * 2 powi e)"

definition js_add :: "number \<Rightarrow> number \<Rightarrow> number" where
  "js_add a b = fl (a + b)"

definition js_sub :: "number \<Rightarrow> number \<Rightarrow> number" where
  "js_sub a b = fl (a - b)"

definition js_mul :: "number \<Rightarrow> number \<Rightarrow> number" where
  "js_mul a b = fl (a * b)"

definition js_div :: "number \<Rightarrow> number \<Rightarrow> number" where
  "js_div a b = fl (a / b)"

text \<open>\<open>Math.floor\<close> and \<open>Math.round\<close> are exact on doubles; \<open>Math.round\<close> rounds a tie upwards.\<close>

definition Math_floor :: "number \<Rightarrow> number" where
  "Math_floor x = of_int \<lfloor>x\<rfloor>"

definition Math_round :: "number \<Rightarrow> number" where
  "Math_round x = of_int \<lfloor>x + 1/2\<rfloor>"

text \<open>\<open>x || d\<close> on a nullable number: \<open>null\<close> and \<open>0\<close> are falsy and give the default.\<close>

definition orElse :: "number option \<Rightarrow> number \<Rightarrow> number" where
  "orElse x d = (case x of None \<Rightarrow> d | Some v \<Rightarrow> if v = 0 then d else v)"

text \<open>The spec's \<open>clamp(v, lo, hi)\<close>: \<open>v\<close> raised to \<open>lo\<close>, then lowered to \<open>hi\<close>.\<close>

definition clamp :: "number \<Rightarrow> number \<Rightarrow> number \<Rightarrow> number" where
  "clamp v lo hi = min (max v lo) hi"


section \<open>Text segmentation: \<open>processBookText\<close>\<close>

text \<open>
  A JavaScript string is a sequence of 16-bit code units. The model has the code units from
  U+0000 to U+00FF, the characters of a \<open>string\<close>. Among these, \<open>\s\<close> matches the tab, the line
  feed, the vertical tab, the form feed, the carriage return, the blank and the no-break
  space U+00A0, and the line terminators, which \<open>.\<close> does not match, are the line feed and
  the carriage return.
\<close>

definition is_space :: "char \<Rightarrow> bool" where
  "is_space c =
     (c \<in> {CHR '' '', CHR 0x09, CHR 0x0A, CHR 0x0B, CHR 0x0C, CHR 0x0D, CHR 0xA0})"

text \<open>
  \<open>case_pairs\<close> pairs each lower-case letter with its upper-case form: the letters \<open>a\<close> to
  \<open>z\<close> and the accented letters from U+00E0 to U+00FE (the division sign U+00F7 is no
  letter). \<open>upper_char\<close> is the upper-case form of a character within a single code unit; it
  is also the canonical form under which the \<open>i\<close> flag of a regular expression compares
  characters. \<open>toUpperCase\<close> moreover replaces the sharp s U+00DF by \<open>SS\<close>. The upper-case
  forms of the micro sign U+00B5 and of U+00FF are the code units U+039C and U+0178, beyond
  the range of the model; the two characters are carried through unchanged.
\<close>

definition case_pairs :: "(char \<times> char) list" where
  "case_pairs =
     zip (''abcdefghijklmnopqrstuvwxyz'' @
          [CHR 0xE0, CHR 0xE1, CHR 0xE2, CHR 0xE3, CHR 0xE4, CHR 0xE5, CHR 0xE6, CHR 0xE7,
           CHR 0xE8, CHR 0xE9, CHR 0xEA, CHR 0xEB, CHR 0xEC, CHR 0xED, CHR 0xEE, CHR 0xEF,
           CHR 0xF0, CHR 0xF1, CHR 0xF2, CHR 0xF3, CHR 0xF4, CHR 0xF5, CHR 0xF6, CHR 0xF8,
           CHR 0xF9, CHR 0xFA, CHR 0xFB, CHR 0xFC, CHR 0xFD, CHR 0xFE])
         (''ABCDEFGHIJKLMNOPQRSTUVWXYZ'' @
          [CHR 0xC0, CHR 0xC1, CHR 0xC2, CHR 0xC3, CHR 0xC4, CHR 0xC5, CHR 0xC6, CHR 0xC7,
           CHR 0xC8, CHR 0xC9, CHR 0xCA, CHR 0xCB, CHR 0xCC, CHR 0xCD, CHR 0xCE, CHR 0xCF,
           CHR 0xD0, CHR 0xD1, CHR 0xD2, CHR 0xD3, CHR 0xD4, CHR 0xD5, CHR 0xD6, CHR 0xD8,
           CHR 0xD9, CHR 0xDA, CHR 0xDB, CHR 0xDC, CHR 0xDD, CHR 0xDE])"

definition upper_char :: "char \<Rightarrow> char" where
  "upper_char c = (case map_of case_pairs c of Some u \<Rightarrow> u | None \<Rightarrow> c)"

definition toUpperCase :: "string \<Rightarrow> string" where
  "toUpperCase s = concat (map (\<lambda>c. if c = CHR 0xDF then ''SS'' else [upper_char c]) s)"

text \<open>\<open>text.replace(/\r\n/g, '\n')\<close>\<close>

fun replace_crlf :: "string \<Rightarrow> string" where
  "replace_crlf (a # b # cs) =
     (if a = CHR 0x0D \<and> b = CHR 0x0A then CHR 0x0A # replace_crlf cs
      else a # replace_crlf (b # cs))"
| "replace_crlf cs = cs"

text \<open>
  The two Project Gutenberg markers,
  \<^verbatim>\<open>/\*\*\* ?START OF (THIS|THE) PROJECT GUTENBERG EBOOK.*?\*\*\*/i\<close> and the same with
  \<^verbatim>\<open>END\<close>. \<open>prefix_ci p s\<close> consumes the literal \<open>p\<close> from the front of \<open>s\<close> ignoring case;
  \<open>lazy_to_stars s\<close> is \<^verbatim>\<open>.*?\*\*\*\<close>: the shortest run without a line terminator that is
  followed by three stars; \<open>match_marker w s\<close> is the rest of \<open>s\<close> after a match at its
  front, and \<open>search_marker w s\<close> the leftmost match as (index, length).
\<close>

fun prefix_ci :: "string \<Rightarrow> string \<Rightarrow> string option" where
  "prefix_ci [] s = Some s"
| "prefix_ci (p # ps) [] = None"
| "prefix_ci (p # ps) (c # cs) =
     (if upper_char c = upper_char p then prefix_ci ps cs else None)"

fun lazy_to_stars :: "string \<Rightarrow> string option" where
  "lazy_to_stars [] = None"
| "lazy_to_stars (c # cs) =
     (case prefix_ci ''***'' (c # cs) of
        Some r \<Rightarrow> Some r
      | None \<Rightarrow> if c = CHR 0x0A \<or> c = CHR 0x0D then None else lazy_to_stars cs)"

definition match_marker :: "string \<Rightarrow> string \<Rightarrow> string option" where
  "match_marker w s =
     (case prefix_ci ''***'' s of None \<Rightarrow> None
      | Some s1 \<Rightarrow>
          (case prefix_ci (w @ '' OF '') (case s1 of c # cs \<Rightarrow> if c = CHR '' '' then cs else s1 | [] \<Rightarrow> s1) of
             None \<Rightarrow> None
           | Some s2 \<Rightarrow>
               (case (case prefix_ci ''THIS'' s2 of Some r \<Rightarrow> Some r | None \<Rightarrow> prefix_ci ''THE'' s2) of
                  None \<Rightarrow> None
                | Some s3 \<Rightarrow>
                    (case prefix_ci '' PROJECT GUTENBERG EBOOK'' s3 of
                       None \<Rightarrow> None
                     | Some s4 \<Rightarrow> lazy_to_stars s4))))"

fun search_marker :: "string \<Rightarrow> string \<Rightarrow> (nat \<times> nat) option" where
  "search_marker w [] = None"
| "search_marker w (c # cs) =
     (case match_marker w (c # cs) of
        Some r \<Rightarrow> Some (0, length (c # cs) - length r)
      | None \<Rightarrow> map_option (\<lambda>(i, n). (Suc i, n)) (search_marker w cs))"

text \<open>
  \<open>s.split(/\s+/)\<close>: the pieces between the maximal runs of white space, the empty pieces
  at the two ends included; the empty string gives one empty piece.
\<close>

function js_split :: "string \<Rightarrow> string list" where
  "js_split s =
     (let w = takeWhile (\<lambda>c. \<not> is_space c) s;
          r = dropWhile (\<lambda>c. \<not> is_space c) s
      in if r = [] then [w] else w # js_split (dropWhile is_space r))"
  by pat_completeness auto
termination
proof (relation "measure length")
  fix s w r
  assume r: "r = dropWhile (\<lambda>c. \<not> is_space c) s" and ne: "r \<noteq> []"
  then have "is_space (hd r)" using hd_dropWhile[of "\<lambda>c. \<not> is_space c" s] by simp
  with ne have "length (dropWhile is_space r) < length r"
    by (cases r) (auto simp: le_imp_less_Suc length_dropWhile_le)
  moreover have "length r \<le> length s" unfolding r by (rule length_dropWhile_le)
  ultimately show "(dropWhile is_space r, s) \<in> measure length" by simp
qed simp

declare js_split.simps [simp del]

record marker =
  title :: string
  index :: nat

record BookStructure =
  words :: "string list"
  chapters :: "marker list"

text \<open>\<^verbatim>\<open>/^(\d+|[IVXLCDM]+)[\.:]?$/\<close>: digits or Roman letters, then at most one of \<open>.\<close> and \<open>:\<close>.\<close>

definition is_digit :: "char \<Rightarrow> bool" where
  "is_digit c = (c \<in> set ''0123456789'')"

definition is_roman :: "char \<Rightarrow> bool" where
  "is_roman c = (c \<in> set ''IVXLCDM'')"

definition numeral_pattern :: "string \<Rightarrow> bool" where
  "numeral_pattern s =
     (let b = (if s \<noteq> [] \<and> (last s = CHR ''.'' \<or> last s = CHR '':'') then butlast s else s)
      in b \<noteq> [] \<and> (list_all is_digit b \<or> list_all is_roman b))"

text \<open>The marker pushed for a heading at index \<open>i\<close>: the title is \<^verbatim>\<open>`${words[i]} ${words[i+1]}`\<close>.\<close>

definition marker_at :: "string list \<Rightarrow> nat \<Rightarrow> marker" where
  "marker_at ws i = \<lparr>title = ws ! i @ '' '' @ ws ! (i + 1), index = i\<rparr>"

text \<open>
  The chapter loop \<^verbatim>\<open>for (let i = 0; i < words.length - 1; i++)\<close> with its extra \<^verbatim>\<open>i++\<close>
  after a heading; \<open>scan_chapters ws i acc\<close> is the loop from index \<open>i\<close> with the markers
  pushed so far.
\<close>

function scan_chapters :: "string list \<Rightarrow> nat \<Rightarrow> marker list \<Rightarrow> marker list" where
  "scan_chapters ws i acc =
     (if i + 1 < length ws then
        let w = toUpperCase (ws ! i) in
        if w = ''CHAPTER'' \<or> w = ''CHAPITRE'' then
          let next = toUpperCase (ws ! (i + 1)) in
          if numeral_pattern next
          then scan_chapters ws (i + 2) (acc @ [marker_at ws i])
          else scan_chapters ws (i + 1) acc
        else scan_chapters ws (i + 1) acc
      else acc)"
  by pat_completeness auto
termination
  by (relation "measure (\<lambda>(ws, i, acc). length ws - i)") auto

declare scan_chapters.simps [simp del]

definition default_chapter :: marker where
  "default_chapter = \<lparr>title = ''D'' @ [CHR 0xE9] @ ''but'', index = 0\<rparr>"






text \<open>
  \<open>processBookText\<close>: line endings, header, footer, tokens, chapter markers. The source also
  matches \<open>chapterStartPattern\<close> and declares \<open>chapterRegex\<close>; neither result is used, so
  they have no counterpart here.
\<close>

definition processBookText :: "string \<Rightarrow> BookStructure" where
  "processBookText text =
     (let cleanText = replace_crlf text;
          cleanText = (case search_marker ''START'' cleanText of
                         Some (i, n) \<Rightarrow> drop (i + n) cleanText
                       | None \<Rightarrow> cleanText);
          cleanText = (case search_marker ''END'' cleanText of
                         Some (i, n) \<Rightarrow> take i cleanText
                       | None \<Rightarrow> cleanText);
          ws = filter (\<lambda>w. 0 < length w) (js_split cleanText);
          chs = scan_chapters ws 0 [];
          chs = (if length chs = 0 then chs @ [default_chapter] else chs)
      in \<lparr>words = ws, chapters = chs\<rparr>)"


section \<open>Arrays of words\<close>

text \<open>
  Array indices and lengths are integers below \<open>2^32\<close>. Sums and differences of such integers
  are exact in binary64 (lemma \<open>js_add_int_exact\<close> below), so index arithmetic is written with
  the exact operations on \<open>int\<close> and \<open>nat\<close>.

  \<open>xs.slice(a, b)\<close> counts a negative argument from the end and cuts both to the array.
\<close>

definition js_slice :: "'a list \<Rightarrow> int \<Rightarrow> int \<Rightarrow> 'a list" where
  "js_slice xs a b =
     (let n = int (length xs);
          k = (if a < 0 then max (n + a) 0 else min a n);
          final = (if b < 0 then max (n + b) 0 else min b n)
      in take (nat (final - k)) (drop (nat k) xs))"

text \<open>\<open>ws.join(' ')\<close>\<close>

fun join :: "string list \<Rightarrow> string" where
  "join [] = []"
| "join [w] = w"
| "join (w # v # ws) = w @ CHR '' '' # join (v # ws)"

text \<open>\<open>arr[i]\<close>: an element, or \<open>undefined\<close> (here \<open>None\<close>) outside the array.\<close>

definition js_index :: "'a list \<Rightarrow> int \<Rightarrow> 'a option" where
  "js_index xs i = (if 0 \<le> i \<and> i < int (length xs) then Some (xs ! nat i) else None)"


section \<open>The reader screen\<close>

text \<open>
  The shared values and the React state of \<open>ReaderScreen\<close> that the cursor depends on.
  \<open>progress\<close> is the cursor. \<open>running\<close> is the animation that \<open>withTiming\<close> or \<open>withDecay\<close>
  has started on \<open>progress\<close> and that has neither finished nor been cancelled:
  \<open>Timing toValue\<close>, or \<open>Decay velocity lower upper\<close>. Assigning a plain number to
  \<open>progress.value\<close> cancels the running animation, whose callback then does not see
  \<open>finished\<close>. A state update scheduled with \<open>runOnJS\<close> or a React setter is applied at once.
\<close>

datatype animation = Timing number | Decay number number number

record reader =
  progress :: number
  isInteracting :: bool
  contentLength :: nat
  waitTimer :: number
  targetIndex :: number
  startProgressRef :: number
  wpm :: number
  savedWpm :: number
  isTickerMode :: bool
  baseIndex :: number
  running :: "animation option"

text \<open>\<open>contentLength.value - 1\<close>\<close>

definition lastIndex :: "reader \<Rightarrow> number" where
  "lastIndex s = of_nat (contentLength s) - 1"

text \<open>The screen once the book is loaded: \<open>n\<close> words, cursor at \<open>initialIndex || 0\<close>.\<close>

definition loaded :: "nat \<Rightarrow> number option \<Rightarrow> reader" where
  "loaded n initialIndex =
     \<lparr>progress = orElse initialIndex 0, isInteracting = False, contentLength = n,
      waitTimer = 0, targetIndex = orElse initialIndex 0, startProgressRef = 0,
      wpm = 0, savedWpm = 300, isTickerMode = False, baseIndex = orElse initialIndex 0,
      running = None\<rparr>"

text \<open>
  The frame callback; its argument is \<open>frameInfo.timeSincePreviousFrame\<close>, which is \<open>null\<close>
  on the first frame. The test \<^verbatim>\<open>increment === increment && isFinite(increment)\<close> of the
  ticker branch holds for every finite rate and frame time and has no branch here.
\<close>

definition frameCallback :: "number option \<Rightarrow> reader \<Rightarrow> reader" where
  "frameCallback timeSincePreviousFrame s =
     (if wpm s = 0 \<or> isInteracting s then s
      else if isTickerMode s then
        let dt = orElse timeSincePreviousFrame 16;
            safeDt = min dt 50;
            increment = js_mul (js_div (wpm s) 60000) safeDt;
            s = s\<lparr>progress := js_add (progress s) increment, running := None\<rparr>;
            s = (if progress s < 0 then s\<lparr>progress := 0\<rparr> else s);
            s = (if lastIndex s \<le> progress s then s\<lparr>progress := lastIndex s, wpm := 0\<rparr> else s)
        in s\<lparr>targetIndex := Math_floor (progress s)\<rparr>
      else
        let avgCycle = js_div 60000 (if wpm s = 0 then 300 else wpm s) in
        if waitTimer s < avgCycle then
          s\<lparr>progress := targetIndex s, running := None,
            waitTimer := js_add (waitTimer s) (orElse timeSincePreviousFrame 16)\<rparr>
        else
          let s = s\<lparr>waitTimer := 0, targetIndex := js_add (targetIndex s) 1\<rparr>;
              s = s\<lparr>progress := targetIndex s, running := None\<rparr>
          in if of_nat (contentLength s) \<le> targetIndex s then s\<lparr>wpm := 0\<rparr> else s)"

definition snapToNearest :: "reader \<Rightarrow> reader" where
  "snapToNearest s = s\<lparr>running := Some (Timing (Math_round (progress s)))\<rparr>"

definition onPanResponderGrant :: "reader \<Rightarrow> reader" where
  "onPanResponderGrant s =
     s\<lparr>isInteracting := True, wpm := 0, running := None, startProgressRef := progress s\<rparr>"

definition sensitivity :: number where
  "sensitivity = fl (2 / 100)"

definition onPanResponderMove :: "number \<Rightarrow> number \<Rightarrow> reader \<Rightarrow> reader" where
  "onPanResponderMove dx dy s =
     (let delta = (if isTickerMode s
                   then js_mul (js_mul (- dx) sensitivity) (fl (2 / 10))
                   else js_mul (- dy) sensitivity);
          newVal = js_add (startProgressRef s) delta;
          newVal = (if newVal < 0 then 0 else newVal);
          newVal = (if lastIndex s < newVal then lastIndex s else newVal)
      in s\<lparr>progress := newVal, running := None\<rparr>)"

definition onPanResponderRelease :: "number \<Rightarrow> number \<Rightarrow> reader \<Rightarrow> reader" where
  "onPanResponderRelease vx vy s =
     (let velocity = (if isTickerMode s then js_mul (- vx) 20 else js_mul (- vy) 20);
          s = (if \<bar>velocity\<bar> < 1 / 2 then snapToNearest s
               else s\<lparr>running := Some (Decay velocity 0 (lastIndex s))\<rparr>);
          finalPosition = Math_round (progress s)
      in s\<lparr>targetIndex := finalPosition, baseIndex := finalPosition\<rparr>)"

definition onPanResponderTerminate :: "reader \<Rightarrow> reader" where
  "onPanResponderTerminate s = snapToNearest (s\<lparr>isInteracting := False\<rparr>)"

text \<open>
  The running animation comes to its end uncancelled. A timing animation leaves the shared
  value at \<open>toValue\<close> and calls the callback of \<open>snapToNearest\<close> with \<open>finished = true\<close>; a
  decay comes to rest at some position \<open>rest\<close> within its clamp and then snaps.
\<close>

definition animationFinished :: "number \<Rightarrow> reader \<Rightarrow> reader" where
  "animationFinished rest s =
     (case running s of
        None \<Rightarrow> s
      | Some (Timing nearest) \<Rightarrow>
          s\<lparr>progress := nearest, running := None, isInteracting := False,
            baseIndex := nearest, targetIndex := nearest\<rparr>
      | Some (Decay velocity lower upper) \<Rightarrow>
          snapToNearest (s\<lparr>progress := clamp rest lower upper, running := None\<rparr>))"

definition togglePlay :: "reader \<Rightarrow> reader" where
  "togglePlay s =
     (if 0 < wpm s then s\<lparr>wpm := 0\<rparr>
      else s\<lparr>wpm := (if 0 < savedWpm s then savedWpm s else 300)\<rparr>)"

definition toggleTickerMode :: "reader \<Rightarrow> reader" where
  "toggleTickerMode s = s\<lparr>isTickerMode := \<not> isTickerMode s\<rparr>"

text \<open>\<open>onValueChange\<close> of the position slider.\<close>

definition onSeek :: "number \<Rightarrow> reader \<Rightarrow> reader" where
  "onSeek val s =
     (let clamped = max 0 (min (Math_floor val) (lastIndex s))
      in s\<lparr>wpm := 0, progress := clamped, running := None, targetIndex := clamped,
           baseIndex := clamped\<rparr>)"

definition jumpToChapter :: "nat \<Rightarrow> reader \<Rightarrow> reader" where
  "jumpToChapter i s =
     s\<lparr>wpm := 0, running := None, progress := of_nat i, targetIndex := of_nat i,
       baseIndex := of_nat i\<rparr>"


section \<open>Narration\<close>

text \<open>
  \<open>startSpeaking\<close> of the narrating variant of the screen: the chunk handed to the speech
  engine, or nothing when narration is off, the book is empty or the cursor is past the end.
\<close>

record narration =
  startIndex :: int
  textToRead :: string

definition startSpeaking :: "string list \<Rightarrow> bool \<Rightarrow> reader \<Rightarrow> narration option" where
  "startSpeaking content ttsEnabled s =
     (if length content = 0 \<or> \<not> ttsEnabled then None
      else
        let startIndex = \<lfloor>progress s + 1 / 2\<rfloor> in
        if int (length content) \<le> startIndex then None
        else Some \<lparr>startIndex = startIndex,
                   textToRead = join (js_slice content startIndex (startIndex + 100))\<rparr>)"

text \<open>The \<open>onBoundary\<close> callback of that chunk, called with \<open>ev.charIndex\<close>.\<close>

definition onBoundary :: "narration \<Rightarrow> int \<Rightarrow> reader \<Rightarrow> reader" where
  "onBoundary n charIndex s =
     (if isInteracting s then s
      else
        let chunkText = take (nat charIndex) (textToRead n);
            wordOffset = int (length (js_split chunkText)) - 1;
            globalIndex = startIndex n + wordOffset
        in s\<lparr>progress := of_int globalIndex, running := None\<rparr>)"

text \<open>
  Following the spec's words: the per-word cumulative character offsets of a chunk, one per
  word, each word followed by one separator; and the word offset of a character offset, the
  position of the last word that starts at or before it.
\<close>

fun cumulative_offsets :: "string list \<Rightarrow> nat \<Rightarrow> nat list" where
  "cumulative_offsets [] acc = []"
| "cumulative_offsets (w # ws) acc = acc # cumulative_offsets ws (acc + length w + 1)"

definition spec_word_offset :: "string list \<Rightarrow> nat \<Rightarrow> int" where
  "spec_word_offset ws c = int (length (takeWhile (\<lambda>off. off \<le> c) (cumulative_offsets ws 0))) - 1"


section \<open>Events of the reading engine\<close>

datatype event =
    Play
  | ToggleTicker
  | Tick "number option"
  | Grant
  | Move number number
  | Release number number
  | Finished number
  | Seek number
  | Jump nat
  | Boundary narration int

fun step :: "reader \<Rightarrow> event \<Rightarrow> reader" where
  "step s Play = togglePlay s"
| "step s ToggleTicker = toggleTickerMode s"
| "step s (Tick dt) = frameCallback dt s"
| "step s Grant = onPanResponderGrant s"
| "step s (Move dx dy) = onPanResponderMove dx dy s"
| "step s (Release vx vy) = onPanResponderRelease vx vy s"
| "step s (Finished rest) = animationFinished rest s"
| "step s (Seek val) = onSeek val s"
| "step s (Jump i) = jumpToChapter i s"
| "step s (Boundary n c) = onBoundary n c s"

definition run :: "reader \<Rightarrow> event list \<Rightarrow> reader" where
  "run s es = foldl step s es"

text \<open>The invariant of the spec on the cursor.\<close>

definition cursor_in_range :: "reader \<Rightarrow> bool" where
  "cursor_in_range s = (0 \<le> progress s \<and> progress s \<le> max 0 (of_nat (contentLength s) - 1))"


section \<open>The continuous renderer\<close>

text \<open>
  \<open>updateWindow\<close> of \<open>HeadlinesRenderer\<close> builds the window text and the offset of each of its
  words; \<open>containerStyle\<close> turns the cursor into the horizontal translation. The result of
  \<open>containerStyle\<close> is \<open>None\<close> when it has read the offset table outside its bounds.
\<close>

definition WINDOW_WORDS :: int where
  "WINDOW_WORDS = 400"

definition WINDOW_BACK :: int where
  "WINDOW_BACK = 150"

record window =
  windowWordOffsets :: "nat list"
  activeWindowStartWord :: int
  windowText :: string

fun localOffsets :: "string list \<Rightarrow> nat \<Rightarrow> nat list" where
  "localOffsets [] acc = []"
| "localOffsets (w # ws) acc = acc # localOffsets ws (acc + (length w + 1))"

definition updateWindow :: "string list \<Rightarrow> int \<Rightarrow> window \<Rightarrow> window" where
  "updateWindow content centerWord win =
     (if length content = 0 then win
      else
        let start = max 0 (centerWord - WINDOW_BACK);
            end = min (int (length content)) (start + WINDOW_WORDS);
            wordsSlice = js_slice content start end
        in \<lparr>windowWordOffsets = localOffsets wordsSlice 0,
            activeWindowStartWord = start,
            windowText = join wordsSlice\<rparr>)"

definition containerStyle :: "window \<Rightarrow> number \<Rightarrow> number \<Rightarrow> number \<Rightarrow> number option" where
  "containerStyle win screenW charWidth idx =
     (let offsets = windowWordOffsets win;
          offsetStartWord = activeWindowStartWord win
      in if length offsets = 0 \<or> length (windowText win) = 0 then Some 0
         else
           let floorIdx = \<lfloor>idx\<rfloor>;
               localIdx = floorIdx - offsetStartWord
           in if localIdx < 0 \<or> int (length offsets) \<le> localIdx then Some (js_div screenW 2)
              else
                let fraction = js_sub idx (of_int floorIdx) in
                case js_index offsets localIdx of
                  None \<Rightarrow> None
                | Some baseChar \<Rightarrow>
                    (case (if localIdx < int (length offsets) - 1
                           then map_option (\<lambda>next. max 1 (js_sub (js_sub (of_nat next) (of_nat baseChar)) 1))
                                  (js_index offsets (localIdx + 1))
                           else Some 5) of
                       None \<Rightarrow> None
                     | Some wordLen \<Rightarrow>
                         let globalCharPos = js_add (of_nat baseChar) (js_mul wordLen fraction)
                         in Some (js_sub (js_div screenW 2) (js_mul globalCharPos charWidth))))"


section \<open>Rounding to binary64\<close>

lemma bitlen_rat_bounds:
  assumes "0 < p"
  shows "2 powi (bitlen p - 1) \<le> (of_int p :: rat)" and "(of_int p :: rat) < 2 powi (bitlen p)"
proof -
  from assms have b1: "1 \<le> bitlen p" by (auto simp: bitlen_alt_def)
  from bitlen_bounds[OF assms]
  have lo: "2 ^ nat (bitlen p - 1) \<le> p" and hi: "p < 2 ^ nat (bitlen p)" by auto
  have "(of_int (2 ^ nat (bitlen p - 1)) :: rat) \<le> of_int p" using lo by (simp only: of_int_le_iff)
  then show "2 powi (bitlen p - 1) \<le> (of_int p :: rat)" using b1 by (simp add: power_int_def)
  have "(of_int p :: rat) < of_int (2 ^ nat (bitlen p))" using hi by (simp only: of_int_less_iff)
  then show "(of_int p :: rat) < 2 powi (bitlen p)" using b1 by (simp add: power_int_def)
qed

lemma ilog2_bounds:
  assumes "0 < x"
  shows "2 powi (ilog2 x) \<le> x \<and> x < 2 powi (ilog2 x + 1)"
proof -
  obtain p q where pq: "quotient_of x = (p, q)" by (cases "quotient_of x")
  then have q: "0 < q" and x: "x = of_int p / of_int q"
    using quotient_of_denom_pos quotient_of_div by auto
  with assms have p: "0 < p" by (simp add: zero_less_divide_iff)
  define a where "a = bitlen p"
  define b where "b = bitlen q"
  define d where "d = a - b"
  note pa = bitlen_rat_bounds[OF p, folded a_def]
  note qb = bitlen_rat_bounds[OF q, folded b_def]
  have qpos: "0 < (of_int q :: rat)" using q by simp
  have ppos: "0 < (of_int p :: rat)" using p by simp
  have "x < 2 powi a / 2 powi (b - 1)"
    unfolding x using pa(2) qb(1) qpos ppos
    by (intro frac_less) auto
  also have "\<dots> = 2 powi (d + 1)"
    by (simp add: d_def power_int_diff[symmetric] algebra_simps)
  finally have hi: "x < 2 powi (d + 1)" .
  have "2 powi (a - 1) / 2 powi b < x"
    unfolding x using pa(1) qb(2) qpos ppos
    by (intro frac_less2) (auto intro: less_imp_le)
  moreover have "2 powi (a - 1) / 2 powi b = (2::rat) powi (d - 1)"
    by (simp add: d_def power_int_diff[symmetric] algebra_simps)
  ultimately have lo: "2 powi (d - 1) \<le> x" by simp
  have il: "ilog2 x = (if 2 powi d \<le> x then d else d - 1)"
    by (simp add: ilog2_def pq d_def a_def b_def Let_def)
  show ?thesis using lo hi by (auto simp: il)
qed

lemma binade_unique:
  fixes x :: rat
  assumes "2 powi k \<le> x" "x < 2 powi (k + 1)" "2 powi j \<le> x" "x < 2 powi (j + 1)"
  shows "k = j"
proof (rule ccontr)
  assume "k \<noteq> j"
  then consider "k + 1 \<le> j" | "j + 1 \<le> k" by linarith
  then show False
  proof cases
    case 1
    then have "(2::rat) powi (k + 1) \<le> 2 powi j" by (intro power_int_increasing) auto
    with assms show False by linarith
  next
    case 2
    then have "(2::rat) powi (j + 1) \<le> 2 powi k" by (intro power_int_increasing) auto
    with assms show False by linarith
  qed
qed

lemma ilog2_eqI: "2 powi k \<le> x \<Longrightarrow> x < 2 powi (k + 1) \<Longrightarrow> ilog2 x = k"
proof -
  assume a: "2 powi k \<le> x" "x < 2 powi (k + 1)"
  have "0 < (2::rat) powi k" by simp
  with a have "0 < x" by linarith
  from ilog2_bounds[OF this] a show ?thesis using binade_unique by blast
qed

lemma fl_binade:
  assumes "2 powi k \<le> x" "x < 2 powi (k + 1)"
  shows "fl x = of_int (round_half_even (x / 2 powi (k - 52))) * 2 powi (k - 52)"
proof -
  have "0 < (2::rat) powi k" by simp
  with assms have x: "0 < x" by linarith
  then show ?thesis by (simp add: fl_def ilog2_eqI[OF assms] Let_def)
qed

lemma floor_rat_numeral_div:
  "\<lfloor>numeral a / numeral b :: rat\<rfloor> = numeral a div numeral b"
  "\<lfloor>- numeral a / numeral b :: rat\<rfloor> = - numeral a div numeral b"
  using floor_divide_of_int_eq[of "numeral a" "numeral b", where ?'a = rat]
    floor_divide_of_int_eq[of "- numeral a" "numeral b", where ?'a = rat] by simp_all

lemma rhe_int: "round_half_even (of_int n) = n"
  by (simp add: round_half_even_def)

lemma rhe_Ints: "q \<in> \<int> \<Longrightarrow> of_int (round_half_even q) = q"
  by (auto simp: round_half_even_def Let_def elim!: Ints_cases)

lemma fl_exact:
  assumes "x \<noteq> 0" "\<bar>x\<bar> / 2 powi (ilog2 \<bar>x\<bar> - 52) \<in> \<int>"
  shows "fl x = x"
proof -
  have "fl x = sgn x * (\<bar>x\<bar> / 2 powi (ilog2 \<bar>x\<bar> - 52)) * 2 powi (ilog2 \<bar>x\<bar> - 52)"
    using assms by (simp add: fl_def Let_def rhe_Ints)
  also have "\<dots> = sgn x * \<bar>x\<bar>" by simp
  also have "\<dots> = x" by (simp add: sgn_mult_abs)
  finally show ?thesis .
qed

lemma fl_of_int:
  assumes "\<bar>n\<bar> < 2 ^ 53"
  shows "fl (of_int n) = of_int n"
proof (cases "n = 0")
  case True
  then show ?thesis by (simp add: fl_def)
next
  case False
  define m where "m = \<bar>n\<bar>"
  have m: "0 < m" "m < 2 ^ 53" using False assms by (auto simp: m_def)
  define k where "k = ilog2 (of_int m)"
  have "0 < (of_int m :: rat)" using m by simp
  from ilog2_bounds[OF this] have lo: "2 powi k \<le> (of_int m :: rat)" by (simp add: k_def)
  have "(of_int m :: rat) < of_int (2 ^ 53)" using m(2) by (simp only: of_int_less_iff)
  then have "(of_int m :: rat) < 2 powi 53" by simp
  with lo have "(2::rat) powi k < 2 powi 53" by linarith
  then have k: "k < 53" using power_int_increasing[of 53 k "2::rat"] by (cases "k < 53") auto
  then have e: "0 \<le> 52 - k" by simp
  have "(of_int m :: rat) / 2 powi (k - 52) = of_int m * 2 powi (52 - k)"
    using power_int_minus[of "2::rat" "52 - k"] by (simp add: field_simps)
  also have "\<dots> = of_int (m * 2 ^ nat (52 - k))" using e by (simp add: power_int_def)
  finally have "(of_int m :: rat) / 2 powi (k - 52) \<in> \<int>" by simp
  moreover have "\<bar>of_int n :: rat\<bar> = of_int m" by (simp add: m_def)
  ultimately show ?thesis using False by (intro fl_exact) (auto simp: k_def)
qed

lemma fl_numeral: "(numeral w :: int) < 9007199254740992 \<Longrightarrow> fl (numeral w) = numeral w"
  using fl_of_int[of "numeral w"] by simp

lemma fl_neg_numeral: "(numeral w :: int) < 9007199254740992 \<Longrightarrow> fl (- numeral w) = - numeral w"
  using fl_of_int[of "- numeral w"] by simp

lemma fl_0: "fl 0 = 0" by (simp add: fl_def)
lemma fl_1: "fl 1 = 1" using fl_of_int[of 1] by simp


lemma fl_small:
  assumes "1 \<le> x * 2 ^ j" "x * 2 ^ j < 2"
  shows "fl x = of_int (round_half_even (x * 2 ^ (j + 52))) / 2 ^ (j + 52)"
proof -
  have p: "(2::rat) powi (- int j) = 1 / 2 ^ j" by (simp add: power_int_minus_divide)
  have q: "(2::rat) powi (1 - int j) = 2 / 2 ^ j"
    using power_int_add_1[of "2::rat" "- int j"] p by simp
  have "- int j - 52 = - int (j + 52)" by simp
  then have r: "(2::rat) powi (- int j - 52) = 1 / 2 ^ (j + 52)"
    by (simp only: power_int_minus_divide power_int_of_nat)
  have "2 powi (- int j) \<le> x" "x < 2 powi (- int j + 1)"
    using assms by (simp_all add: p q field_simps)
  from fl_binade[OF this] show ?thesis by (simp add: r)
qed

lemma fl_large:
  assumes "2 ^ j \<le> x" "x < 2 * 2 ^ j" "j \<le> 52"
  shows "fl x = of_int (round_half_even (x * 2 ^ (52 - j))) / 2 ^ (52 - j)"
proof -
  have "int j - 52 = - int (52 - j)" using assms(3) by simp
  then have r: "(2::rat) powi (int j - 52) = 1 / 2 ^ (52 - j)"
    by (simp only: power_int_minus_divide power_int_of_nat)
  have "2 powi (int j) \<le> x" "x < 2 powi (int j + 1)"
    using assms by (simp_all add: power_int_add)
  from fl_binade[OF this] show ?thesis by (simp add: r)
qed

lemmas fl_eval = round_half_even_def Let_def floor_rat_numeral_div


text \<open>Sums and differences of integers below \<open>2^53\<close> in magnitude are exact.\<close>

lemma js_add_int_exact:
  "\<bar>a + b\<bar> < 2 ^ 53 \<Longrightarrow> js_add (of_int a) (of_int b) = of_int (a + b)"
  using fl_of_int[of "a + b"] by (simp add: js_add_def)

lemma js_sub_int_exact:
  "\<bar>a - b\<bar> < 2 ^ 53 \<Longrightarrow> js_sub (of_int a) (of_int b) = of_int (a - b)"
  using fl_of_int[of "a - b"] by (simp add: js_sub_def)


section \<open>Evaluating the handlers\<close>

lemmas handler_defs =
  run_def loaded_def togglePlay_def frameCallback_def onPanResponderGrant_def
  onPanResponderMove_def orElse_def lastIndex_def Let_def

lemmas int_arith = js_add_def js_div_def fl_numeral fl_0 fl_1

lemma sensitivity_value: "sensitivity = 5764607523034235 / 288230376151711744"
  by (simp add: sensitivity_def fl_small[where j=6] fl_eval)

lemma drag_100_delta: "js_mul 100 sensitivity = 2"
  by (simp add: js_mul_def sensitivity_value fl_large[where j=1] fl_eval)

lemma drag_minus_100_delta: "js_mul (- 100) sensitivity = - 2"
proof -
  have "fl (- (100 * sensitivity)) = - fl (100 * sensitivity)"
    by (simp add: fl_def Let_def sensitivity_value)
  then show ?thesis using drag_100_delta by (simp add: js_mul_def)
qed


lemma run_Nil: "run s [] = s"
  by (simp add: run_def)

lemma run_Cons: "run s (e # es) = run (step s e) es"
  by (simp add: run_def)

lemma run_append: "run s (es @ fs) = run (run s es) fs"
  by (simp add: run_def)

lemma run_replicate_numeral:
  "run s (replicate (numeral k) e) = run (step s e) (replicate (pred_numeral k) e)"
  by (simp add: numeral_eq_Suc run_def)

lemma run_replicate_0: "run s (replicate 0 e) = s"
  by (simp add: run_def)


section \<open>Splitting a text into words\<close>

lemma js_split_last:
  "dropWhile (\<lambda>c. \<not> is_space c) s = [] \<Longrightarrow> js_split s = [takeWhile (\<lambda>c. \<not> is_space c) s]"
  by (subst js_split.simps) (simp add: Let_def del: dropWhile_eq_Nil_conv)

lemma js_split_more:
  "dropWhile (\<lambda>c. \<not> is_space c) s \<noteq> [] \<Longrightarrow>
     js_split s = takeWhile (\<lambda>c. \<not> is_space c) s
                    # js_split (dropWhile is_space (dropWhile (\<lambda>c. \<not> is_space c) s))"
  by (subst js_split.simps) (simp add: Let_def del: dropWhile_eq_Nil_conv)

lemma js_split_no_space: "w \<in> set (js_split s) \<Longrightarrow> c \<in> set w \<Longrightarrow> \<not> is_space c"
proof (induction s arbitrary: w rule: js_split.induct)
  case (1 s)
  show ?case
  proof (cases "dropWhile (\<lambda>c. \<not> is_space c) s = []")
    case True
    from "1.prems" show ?thesis
      unfolding js_split_last[OF True] by (auto dest: set_takeWhileD)
  next
    case False
    from "1.prems"(1) consider "w = takeWhile (\<lambda>c. \<not> is_space c) s"
      | "w \<in> set (js_split (dropWhile is_space (dropWhile (\<lambda>c. \<not> is_space c) s)))"
      unfolding js_split_more[OF False] by auto
    then show ?thesis
    proof cases
      case 1
      with "1.prems"(2) show ?thesis by (auto dest: set_takeWhileD)
    next
      case 2
      from "1.IH"[OF refl refl False 2 "1.prems"(2)] show ?thesis .
    qed
  qed
qed

lemma words_processBookText:
  "\<exists>s. words (processBookText text) = filter (\<lambda>w. 0 < length w) (js_split s)"
  by (auto simp: processBookText_def Let_def)

lemma words_tokens:
  "w \<in> set (words (processBookText t)) \<Longrightarrow> w \<noteq> [] \<and> (\<forall>c \<in> set w. \<not> is_space c)"
  using words_processBookText[of t] js_split_no_space by auto


text \<open>A text without a star holds neither marker.\<close>

lemma upper_char_star: "upper_char c = CHR ''*'' \<Longrightarrow> c = CHR ''*''"
  by (auto simp: upper_char_def case_pairs_def split: if_splits)

lemma match_marker_no_star: "CHR ''*'' \<noteq> c \<Longrightarrow> match_marker w (c # cs) = None"
proof -
  assume "CHR ''*'' \<noteq> c"
  then have "upper_char c \<noteq> upper_char CHR ''*''"
    using upper_char_star[of c] by (auto simp: upper_char_def case_pairs_def)
  then show ?thesis by (simp add: match_marker_def)
qed

lemma search_marker_no_star: "CHR ''*'' \<notin> set t \<Longrightarrow> search_marker w t = None"
  by (induction t) (simp_all add: match_marker_no_star)

text \<open>A text without a star is split as it is, once its line endings are normalised.\<close>

lemma set_replace_crlf: "set (replace_crlf t) \<subseteq> set t"
  by (induction t rule: replace_crlf.induct) auto

lemma words_no_star:
  assumes "CHR ''*'' \<notin> set t"
  shows "words (processBookText t) = filter (\<lambda>w. 0 < length w) (js_split (replace_crlf t))"
proof -
  from assms set_replace_crlf[of t] have "CHR ''*'' \<notin> set (replace_crlf t)" by blast
  then have "search_marker ''START'' (replace_crlf t) = None"
    and "search_marker ''END'' (replace_crlf t) = None"
    by (rule search_marker_no_star)+
  then show ?thesis by (simp add: processBookText_def Let_def)
qed


lemma set_js_slice: "set (js_slice xs a b) \<subseteq> set xs"
  by (auto simp: js_slice_def Let_def dest: in_set_takeD in_set_dropD)



section \<open>Upper case\<close>











text \<open>The accented letter and the sharp s of a word.\<close>

lemma toUpperCase_example:
  "toUpperCase (''d'' @ [CHR 0xE9] @ ''but stra'' @ [CHR 0xDF] @ ''e 1.'')
     = ''D'' @ [CHR 0xC9] @ ''BUT STRASSE 1.''"
  by (simp add: toUpperCase_def upper_char_def case_pairs_def)


section \<open>A Project Gutenberg text\<close>

text \<open>
  The header, written in upper case, and everything before it are dropped, and so are the
  footer, written in mixed case and without a blank after its stars, and everything after
  it; the carriage return with line feed after the header separates no word. A header whose
  closing stars stand on the next line is no header.
\<close>

definition gutenberg_text :: string where
  "gutenberg_text =
     ''Title page *** START OF THE PROJECT GUTENBERG EBOOK EMMA ***'' @ [CHR 0x0D, CHR 0x0A]
     @ ''Chapter I. Emma ***end of this Project Gutenberg ebook emma *** Licence''"

lemma gutenberg_book:
  "processBookText gutenberg_text =
     \<lparr>words = [''Chapter'', ''I.'', ''Emma''],
      chapters = [\<lparr>title = ''Chapter I.'', index = 0\<rparr>]\<rparr>"
  by code_simp

lemma broken_header_words:
  "words (processBookText (''x *** START OF THE PROJECT GUTENBERG EBOOK EMMA'' @ [CHR 0x0A] @ ''*** y''))
     = [''x'', ''***'', ''START'', ''OF'', ''THE'', ''PROJECT'', ''GUTENBERG'', ''EBOOK'', ''EMMA'',
        ''***'', ''y'']"
  by code_simp

section \<open>The range of the cursor\<close>

text \<open>
  C1. The cursor does not stay within \<open>0 \<le> c \<le> max(0, N - 1)\<close>. In a book of 1000 words
  resumed at its last word 999, pressing play and letting the dwell time of 200 ms pass
  puts the cursor on 1000: the discrete branch of the frame callback increments the target
  and writes it to the cursor before it compares it with the length, where the ticker
  branch, the gesture and the position slider all stop at \<open>N - 1\<close>. Pressing play again
  moves it to 1001. With an empty book a gesture move puts the cursor on \<open>-1\<close>.
\<close>

theorem C1_discrete_autoplay_leaves_the_range:
  "cursor_in_range (loaded 1000 (Some 999))
   \<and> progress (run (loaded 1000 (Some 999)) [Play, Tick (Some 200), Tick (Some 16)]) = 1000
   \<and> \<not> cursor_in_range (run (loaded 1000 (Some 999)) [Play, Tick (Some 200), Tick (Some 16)])
   \<and> progress (run (loaded 1000 (Some 999))
         [Play, Tick (Some 200), Tick (Some 16), Play, Tick (Some 200), Tick (Some 16)]) = 1001
   \<and> progress (run (loaded 0 None) [Grant, Move 0 10]) = - 1"
proof -
  have a: "run (loaded 1000 (Some 999)) [Play, Tick (Some 200), Tick (Some 16)]
      = (loaded 1000 (Some 999))\<lparr>progress := 1000, targetIndex := 1000\<rparr>"
    by (simp add: handler_defs int_arith)
  have b: "run (loaded 1000 (Some 999))
         [Play, Tick (Some 200), Tick (Some 16), Play, Tick (Some 200), Tick (Some 16)]
      = run (run (loaded 1000 (Some 999)) [Play, Tick (Some 200), Tick (Some 16)])
          [Play, Tick (Some 200), Tick (Some 16)]"
    by (simp add: run_def)
  have c: "progress (run ((loaded 1000 (Some 999))\<lparr>progress := 1000, targetIndex := 1000\<rparr>)
          [Play, Tick (Some 200), Tick (Some 16)]) = 1001"
    by (simp add: handler_defs int_arith)
  have d: "js_mul (- 10) sensitivity \<le> 0"
    by (simp add: js_mul_def sensitivity_value fl_def Let_def zero_le_mult_iff mult_le_0_iff
        sgn_if round_half_even_def)
  have e: "progress (run (loaded 0 None) [Grant, Move 0 10]) = - 1"
    using d by (simp add: handler_defs int_arith)
  show ?thesis
    unfolding b a using c e by (simp add: cursor_in_range_def loaded_def orElse_def)
qed


section \<open>Ownership of the cursor during a gesture\<close>

text \<open>
  C2. While the interacting flag is set, a frame tick and a narration boundary callback
  return the state they were given: neither writes the cursor, and neither fails (both
  handlers are total and have no error result).
\<close>

theorem C2_interacting_discards_stale_writes:
  "isInteracting s \<Longrightarrow> frameCallback dt s = s \<and> onBoundary n c s = s"
  by (simp add: frameCallback_def onBoundary_def)

text \<open>
  A gesture has claimed the cursor and the play button has then set a rate of 300 words per
  minute: the tick and the boundary event are both dropped.
\<close>

theorem C2_witness:
  "isInteracting (run (loaded 1000 (Some 5)) [Grant, Play])
   \<and> wpm (run (loaded 1000 (Some 5)) [Grant, Play]) = 300
   \<and> frameCallback (Some 16) (run (loaded 1000 (Some 5)) [Grant, Play])
       = run (loaded 1000 (Some 5)) [Grant, Play]
   \<and> onBoundary \<lparr>startIndex = 5, textToRead = ''the quick brown fox''\<rparr> 10
         (run (loaded 1000 (Some 5)) [Grant, Play])
       = run (loaded 1000 (Some 5)) [Grant, Play]"
proof -
  have i: "isInteracting (run (loaded 1000 (Some 5)) [Grant, Play])"
    by (simp add: run_def loaded_def onPanResponderGrant_def togglePlay_def orElse_def)
  have w: "wpm (run (loaded 1000 (Some 5)) [Grant, Play]) = 300"
    by (simp add: run_def loaded_def onPanResponderGrant_def togglePlay_def orElse_def)
  from C2_interacting_discards_stale_writes[OF i] i w show ?thesis by simp
qed


section \<open>Continuous autoplay\<close>

text \<open>
  The screen of a book of 1000 words in ticker mode, playing at 300 words per minute with
  the cursor at \<open>p\<close>.
\<close>

definition playing_ticker :: "number \<Rightarrow> reader" where
  "playing_ticker p =
     \<lparr>progress = p, isInteracting = False, contentLength = 1000, waitTimer = 0,
      targetIndex = Math_floor p, startProgressRef = 0, wpm = 300, savedWpm = 300,
      isTickerMode = True, baseIndex = 0, running = None\<rparr>"

lemma playing_ticker_start: "run (loaded 1000 None) [ToggleTicker, Play] = playing_ticker 0"
  by (simp add: playing_ticker_def run_def loaded_def toggleTickerMode_def togglePlay_def
      orElse_def Math_floor_def)

text \<open>The increment of a 16 ms tick at 300 words per minute is the double nearest to 0.08.\<close>

lemma increment_300_16: "js_mul (js_div 300 60000) 16 = 5764607523034235 / 72057594037927936"
  by (simp add: js_mul_def js_div_def fl_small[where j=8] fl_small[where j=4] fl_eval)

text \<open>One such tick.\<close>

lemma ticker_tick:
  "frameCallback (Some 16) (playing_ticker p) =
     (let q = js_add p (5764607523034235 / 72057594037927936)
      in if 0 \<le> q \<and> q < 999 then playing_ticker q
         else if q < 0 then playing_ticker 0
         else (playing_ticker 999)\<lparr>wpm := 0\<rparr>)"
  by (simp add: playing_ticker_def frameCallback_def orElse_def lastIndex_def Let_def
      increment_300_16 Math_floor_def)

lemmas ticker_eval =
  run_replicate_numeral run_replicate_0 run_Cons run_Nil ticker_tick Let_def js_add_def
  fl_eval fl_0

text \<open>
  The 625 ticks, cut where the sum enters a new binade: each part is evaluated with the
  rounding of its own binade.
\<close>

lemma ticks_0_1:
  "run (playing_ticker 0) (replicate 1 (Tick (Some 16)))
     = playing_ticker (5764607523034235 / 72057594037927936)"
  by (simp add: ticker_eval fl_small[where j=4])

lemma ticks_1_3:
  "run (playing_ticker (5764607523034235 / 72057594037927936)) (replicate 2 (Tick (Some 16)))
     = playing_ticker (1080863910568919 / 4503599627370496)"
  by (simp add: ticker_eval fl_small[where j=3])

lemma ticks_3_6:
  "run (playing_ticker (1080863910568919 / 4503599627370496)) (replicate 3 (Tick (Some 16)))
     = playing_ticker (8646911284551353 / 18014398509481984)"
  by (simp add: ticker_eval fl_small[where j=2])

lemma ticks_6_12:
  "run (playing_ticker (8646911284551353 / 18014398509481984)) (replicate 6 (Tick (Some 16)))
     = playing_ticker (8646911284551351 / 9007199254740992)"
  by (simp add: ticker_eval fl_small[where j=1])

lemma ticks_12_24:
  "run (playing_ticker (8646911284551351 / 9007199254740992)) (replicate 12 (Tick (Some 16)))
     = playing_ticker (8646911284551355 / 4503599627370496)"
  by (simp add: ticker_eval fl_large[where j=0])

lemma ticks_24_49:
  "run (playing_ticker (8646911284551355 / 4503599627370496)) (replicate 25 (Tick (Some 16)))
     = playing_ticker (8827055269646177 / 2251799813685248)"
  by (simp add: ticker_eval fl_large[where j=1])

lemma ticks_49_99:
  "run (playing_ticker (8827055269646177 / 2251799813685248)) (replicate 50 (Tick (Some 16)))
     = playing_ticker (2229281815548397 / 281474976710656)"
  by (simp add: ticker_eval fl_large[where j=2])

lemma ticks_99_199:
  "run (playing_ticker (2229281815548397 / 281474976710656)) (replicate 100 (Tick (Some 16)))
     = playing_ticker (4481081629233647 / 281474976710656)"
  by (simp add: ticker_eval fl_large[where j=3])

lemma ticks_199_400:
  "run (playing_ticker (4481081629233647 / 281474976710656)) (replicate 201 (Tick (Some 16)))
     = playing_ticker (9007199254740899 / 281474976710656)"
  by (simp add: ticker_eval fl_large[where j=4])

lemma ticks_400_625:
  "run (playing_ticker (9007199254740899 / 281474976710656)) (replicate 225 (Tick (Some 16)))
     = playing_ticker (1759218604441575 / 35184372088832)"
  by (simp add: ticker_eval fl_large[where j=5])

lemma replicate_625:
  "replicate 625 t = replicate 1 t @ (replicate 2 t @ (replicate 3 t @ (replicate 6 t @ (replicate 12 t @ (replicate 25 t @ (replicate 50 t @ (replicate 100 t @ (replicate 201 t @ (replicate 225 t)))))))))"
proof -
  have "(625::nat) = 1 + (2 + (3 + (6 + (12 + (25 + (50 + (100 + (201 + (225)))))))))"
    by simp
  then show ?thesis
    by (simp only: replicate_add)
qed

lemma ticks_625:
  "run (loaded 1000 None) ([ToggleTicker, Play] @ replicate 625 (Tick (Some 16)))
     = playing_ticker (1759218604441575 / 35184372088832)"
  by (simp only: replicate_625 run_append playing_ticker_start ticks_0_1 ticks_1_3 ticks_3_6 ticks_6_12 ticks_12_24 ticks_24_49 ticks_49_99 ticks_99_199 ticks_199_400 ticks_400_625)

text \<open>
  C3, as stated, fails on its own example. In ticker mode at 300 words per minute, 625
  ticks of 16 ms from the start of a book of 1000 words leave the cursor at
  49.99999999999929 and the target index at 49: the increment of one tick is the double
  nearest to 0.08 and every sum is rounded to a double.
\<close>

theorem C3_counterexample:
  "wpm (run (loaded 1000 None) [ToggleTicker, Play]) = 300
   \<and> progress (run (loaded 1000 None) [ToggleTicker, Play]) = 0
   \<and> progress (run (loaded 1000 None) ([ToggleTicker, Play] @ replicate 625 (Tick (Some 16))))
       = 1759218604441575 / 35184372088832
   \<and> progress (run (loaded 1000 None) ([ToggleTicker, Play] @ replicate 625 (Tick (Some 16))))
       \<noteq> 50
   \<and> targetIndex (run (loaded 1000 None) ([ToggleTicker, Play] @ replicate 625 (Tick (Some 16))))
       = 49"
proof -
  have f: "Math_floor (1759218604441575 / 35184372088832) = 49"
    by (simp add: Math_floor_def floor_rat_numeral_div)
  show ?thesis
    unfolding ticks_625 playing_ticker_start
    by (simp add: playing_ticker_def f)
qed

text \<open>
  C3, amended. In ticker autoplay (a rate is set, no gesture holds the cursor) a frame tick
  with elapsed time \<open>dt\<close>, taken as 16 ms when it is absent or zero, sets the cursor to
  \<open>clamp(cursor + (wpm / 60000) * min(dt, 50), 0, N - 1)\<close>, where the division, the product
  and the sum are the double-precision operations, each rounded to the nearest double; the
  rate is reset to 0 exactly when the sum, raised to 0, reaches \<open>N - 1\<close>. At 300 words per
  minute a tick of 16 ms adds the double nearest to 0.08, and 625 such ticks from the start
  of the book advance the cursor to \<open>50 - 25 / 2^45\<close>, that is 49.99999999999929.
\<close>

theorem C3_ticker_tick:
  "(wpm s \<noteq> 0 \<and> \<not> isInteracting s \<and> isTickerMode s \<longrightarrow>
      progress (frameCallback dt s) =
        clamp (js_add (progress s) (js_mul (js_div (wpm s) 60000) (min (orElse dt 16) 50)))
          0 (of_nat (contentLength s) - 1)
      \<and> wpm (frameCallback dt s) =
        (if of_nat (contentLength s) - 1
              \<le> max (js_add (progress s) (js_mul (js_div (wpm s) 60000) (min (orElse dt 16) 50))) 0
         then 0 else wpm s))
   \<and> js_mul (js_div 300 60000) 16 = 5764607523034235 / 72057594037927936
   \<and> progress (run (loaded 1000 None) ([ToggleTicker, Play] @ replicate 625 (Tick (Some 16))))
       = 50 - 25 / 2 ^ 45"
proof -
  have tick: "wpm s \<noteq> 0 \<and> \<not> isInteracting s \<and> isTickerMode s \<longrightarrow>
      progress (frameCallback dt s) =
        clamp (js_add (progress s) (js_mul (js_div (wpm s) 60000) (min (orElse dt 16) 50)))
          0 (of_nat (contentLength s) - 1)
      \<and> wpm (frameCallback dt s) =
        (if of_nat (contentLength s) - 1
              \<le> max (js_add (progress s) (js_mul (js_div (wpm s) 60000) (min (orElse dt 16) 50))) 0
         then 0 else wpm s)"
    by (simp add: frameCallback_def clamp_def Let_def lastIndex_def min_def max_def)
  have v: "(1759218604441575 / 35184372088832 :: rat) = 50 - 25 / 2 ^ 45"
    by simp
  have e: "progress (run (loaded 1000 None) ([ToggleTicker, Play] @ replicate 625 (Tick (Some 16))))
       = 50 - 25 / 2 ^ 45"
    unfolding ticks_625 by (simp only: playing_ticker_def reader.simps v)
  from tick increment_300_16 e show ?thesis by (intro conjI)
qed

text \<open>
  The first tick of a book of 1000 words adds the double nearest to 0.08, also when its
  elapsed time is absent; a stalled frame of 2 s counts as 50 ms and adds a quarter of a
  word; and a tick at the last word 999 leaves the cursor there and stops the autoplay.
\<close>

theorem C3_witness:
  "wpm (run (loaded 1000 None) [ToggleTicker, Play]) \<noteq> 0
   \<and> \<not> isInteracting (run (loaded 1000 None) [ToggleTicker, Play])
   \<and> isTickerMode (run (loaded 1000 None) [ToggleTicker, Play])
   \<and> progress (frameCallback (Some 16) (run (loaded 1000 None) [ToggleTicker, Play]))
       = 5764607523034235 / 72057594037927936
   \<and> progress (frameCallback None (run (loaded 1000 None) [ToggleTicker, Play]))
       = 5764607523034235 / 72057594037927936
   \<and> progress (frameCallback (Some 2000) (run (loaded 1000 None) [ToggleTicker, Play])) = 1 / 4
   \<and> wpm (frameCallback (Some 16) (run (loaded 1000 None) [ToggleTicker, Play])) = 300
   \<and> progress (frameCallback (Some 16) (run (loaded 1000 (Some 999)) [ToggleTicker, Play])) = 999
   \<and> wpm (frameCallback (Some 16) (run (loaded 1000 (Some 999)) [ToggleTicker, Play])) = 0"
proof -
  define a where "a = run (loaded 1000 None) [ToggleTicker, Play]"
  define b where "b = run (loaded 1000 (Some 999)) [ToggleTicker, Play]"
  have a: "wpm a = 300" "\<not> isInteracting a" "isTickerMode a" "progress a = 0" "contentLength a = 1000"
    by (simp_all add: a_def run_def loaded_def toggleTickerMode_def togglePlay_def orElse_def)
  have b: "wpm b = 300" "\<not> isInteracting b" "isTickerMode b" "progress b = 999" "contentLength b = 1000"
    by (simp_all add: b_def run_def loaded_def toggleTickerMode_def togglePlay_def orElse_def)
  have i50: "js_mul (js_div 300 60000) 50 = 1 / 4"
    by (simp add: js_mul_def js_div_def fl_small[where j=8] fl_small[where j=2] fl_eval)
  have s0: "js_add 0 (5764607523034235 / 72057594037927936) = 5764607523034235 / 72057594037927936"
    by (simp add: js_add_def fl_small[where j=4] fl_eval)
  have s1: "js_add 0 (1 / 4) = 1 / 4"
    by (simp add: js_add_def fl_small[where j=2] fl_eval)
  have s2: "js_add 999 (5764607523034235 / 72057594037927936) = 8788000616627569 / 8796093022208"
    by (simp add: js_add_def fl_large[where j=9] fl_eval)
  from C3_ticker_tick[of a "Some 16"] a
  have t1: "progress (frameCallback (Some 16) a) = 5764607523034235 / 72057594037927936"
    "wpm (frameCallback (Some 16) a) = 300"
    by (simp_all add: orElse_def increment_300_16 s0 clamp_def)
  from C3_ticker_tick[of a None] a
  have t2: "progress (frameCallback None a) = 5764607523034235 / 72057594037927936"
    by (simp add: orElse_def increment_300_16 s0 clamp_def)
  from C3_ticker_tick[of a "Some 2000"] a
  have t3: "progress (frameCallback (Some 2000) a) = 1 / 4"
    by (simp add: orElse_def i50 s1 clamp_def)
  from C3_ticker_tick[of b "Some 16"] b
  have t4: "progress (frameCallback (Some 16) b) = 999" "wpm (frameCallback (Some 16) b) = 0"
    by (simp_all add: orElse_def increment_300_16 s2 clamp_def)
  have n: "wpm a \<noteq> 0" using a by simp
  from n a(2,3) t1 t2 t3 t4 show ?thesis unfolding a_def b_def by (intro conjI)
qed


section \<open>Discrete autoplay\<close>

lemmas tick_eval =
  run_append run_replicate_numeral run_replicate_0 run_Cons run_Nil step.simps
  loaded_def togglePlay_def frameCallback_def orElse_def lastIndex_def Let_def int_arith

text \<open>
  C4, as stated, fails on the frames of a 60 Hz display. Play is pressed at 300 words per
  minute on a book of 1000 words; 128 frame ticks of 16 ms and one of 2 ms make 2.05 s, and
  the target index has then advanced by 9, not by 10.
\<close>

theorem C4_counterexample:
  "wpm (togglePlay (loaded 1000 None)) = 300
   \<and> targetIndex (togglePlay (loaded 1000 None)) = 0
   \<and> (128 * 16 + 2 :: number) = 2050
   \<and> targetIndex (run (togglePlay (loaded 1000 None))
         (replicate 128 (Tick (Some 16)) @ [Tick (Some 2)])) = 9
   \<and> targetIndex (run (togglePlay (loaded 1000 None))
         (replicate 128 (Tick (Some 16)) @ [Tick (Some 2)])) \<noteq> 10"
  by (simp add: tick_eval)

text \<open>
  The frame callback advances on the tick \<^emph>\<open>after\<close> the one on which the accumulator
  reached the dwell time, and that tick's own elapsed time is dropped, so a word takes more
  than the dwell time. The 10 words of the claim are only reached when every advancing tick
  follows the dwell time at once, as with ticks of 200 ms and 5 ms in turn.
\<close>

lemma discrete_ticks_200_5:
  "targetIndex (run (togglePlay (loaded 1000 None))
     (concat (replicate 10 [Tick (Some 200), Tick (Some 5)]))) = 10"
  by (simp add: tick_eval numeral_eq_Suc)

text \<open>
  C4, amended. In discrete autoplay (a rate is set, no gesture holds the cursor, column
  mode) the dwell time is \<open>60000 / wpm\<close>. A tick that finds the accumulator below the dwell
  time holds the cursor at the target index, a write that cancels a running animation, and
  adds its elapsed time (16 ms when that is absent or zero) to the accumulator; a tick that finds the accumulator at or above it
  increments the target index by one, moves the cursor there and resets the accumulator to
  zero. At 300 words per minute the dwell time is 200 ms; with ticks of 16 ms the target
  index is unchanged after 13 ticks, advances on the 14th, and after 2.05 s (128 such ticks
  and one of 2 ms) it has advanced by exactly 9.
\<close>

theorem C4_discrete_tick:
  "(wpm s \<noteq> 0 \<and> \<not> isInteracting s \<and> \<not> isTickerMode s \<and> waitTimer s < js_div 60000 (wpm s) \<longrightarrow>
      frameCallback dt s =
        s\<lparr>progress := targetIndex s, running := None,
          waitTimer := js_add (waitTimer s) (orElse dt 16)\<rparr>)
   \<and> (wpm s \<noteq> 0 \<and> \<not> isInteracting s \<and> \<not> isTickerMode s \<and> js_div 60000 (wpm s) \<le> waitTimer s \<longrightarrow>
      targetIndex (frameCallback dt s) = js_add (targetIndex s) 1
      \<and> progress (frameCallback dt s) = js_add (targetIndex s) 1
      \<and> waitTimer (frameCallback dt s) = 0)
   \<and> js_div 60000 300 = 200
   \<and> targetIndex (run (togglePlay (loaded 1000 None)) (replicate 13 (Tick (Some 16)))) = 0
   \<and> targetIndex (run (togglePlay (loaded 1000 None)) (replicate 14 (Tick (Some 16)))) = 1
   \<and> targetIndex (run (togglePlay (loaded 1000 None))
         (replicate 128 (Tick (Some 16)) @ [Tick (Some 2)])) = 9"
proof -
  have hold: "wpm s \<noteq> 0 \<and> \<not> isInteracting s \<and> \<not> isTickerMode s \<and> waitTimer s < js_div 60000 (wpm s) \<longrightarrow>
      frameCallback dt s =
        s\<lparr>progress := targetIndex s, running := None,
          waitTimer := js_add (waitTimer s) (orElse dt 16)\<rparr>"
    by (simp add: frameCallback_def Let_def)
  have adv: "wpm s \<noteq> 0 \<and> \<not> isInteracting s \<and> \<not> isTickerMode s \<and> js_div 60000 (wpm s) \<le> waitTimer s \<longrightarrow>
      targetIndex (frameCallback dt s) = js_add (targetIndex s) 1
      \<and> progress (frameCallback dt s) = js_add (targetIndex s) 1
      \<and> waitTimer (frameCallback dt s) = 0"
    by (simp add: frameCallback_def Let_def)
  have d: "js_div 60000 300 = 200"
    by (simp add: int_arith)
  have t13: "targetIndex (run (togglePlay (loaded 1000 None)) (replicate 13 (Tick (Some 16)))) = 0"
    by (simp add: tick_eval)
  have t14: "targetIndex (run (togglePlay (loaded 1000 None)) (replicate 14 (Tick (Some 16)))) = 1"
    by (simp add: tick_eval)
  have t129: "targetIndex (run (togglePlay (loaded 1000 None))
         (replicate 128 (Tick (Some 16)) @ [Tick (Some 2)])) = 9"
    by (simp add: tick_eval)
  from hold adv d t13 t14 t129 show ?thesis by (intro conjI)
qed

text \<open>
  The first tick after play holds the cursor and counts 16 ms; the tick that follows the
  13th finds 208 ms on the accumulator and advances to word 1.
\<close>

theorem C4_witness:
  "waitTimer (togglePlay (loaded 1000 None)) < js_div 60000 (wpm (togglePlay (loaded 1000 None)))
   \<and> progress (frameCallback (Some 16) (togglePlay (loaded 1000 None))) = 0
   \<and> waitTimer (frameCallback (Some 16) (togglePlay (loaded 1000 None))) = 16
   \<and> waitTimer (run (togglePlay (loaded 1000 None)) (replicate 13 (Tick (Some 16)))) = 208
   \<and> targetIndex (frameCallback (Some 16)
         (run (togglePlay (loaded 1000 None)) (replicate 13 (Tick (Some 16))))) = 1
   \<and> waitTimer (frameCallback (Some 16)
         (run (togglePlay (loaded 1000 None)) (replicate 13 (Tick (Some 16))))) = 0"
proof -
  define s0 where "s0 = togglePlay (loaded 1000 None)"
  define s1 where "s1 = run (togglePlay (loaded 1000 None)) (replicate 13 (Tick (Some 16)))"
  have s0: "wpm s0 = 300" "\<not> isInteracting s0" "\<not> isTickerMode s0" "waitTimer s0 = 0"
    "targetIndex s0 = 0"
    by (simp_all add: s0_def loaded_def togglePlay_def orElse_def)
  have s1: "wpm s1 = 300" "\<not> isInteracting s1" "\<not> isTickerMode s1" "waitTimer s1 = 208"
    "targetIndex s1 = 0"
    by (simp_all add: s1_def tick_eval)
  have d: "js_div 60000 300 = 200" "js_add 0 16 = 16" "js_add 0 1 = 1"
    by (simp_all add: int_arith)
  from C4_discrete_tick[of s0 "Some 16"] s0 d
  have a: "frameCallback (Some 16) s0 = s0\<lparr>progress := 0, running := None, waitTimer := 16\<rparr>"
    by (simp add: orElse_def)
  from C4_discrete_tick[of s1 "Some 16"] s1 d
  have b: "targetIndex (frameCallback (Some 16) s1) = 1" "waitTimer (frameCallback (Some 16) s1) = 0"
    by simp_all
  have "waitTimer s0 < js_div 60000 (wpm s0)" using s0 d by simp
  moreover have "progress (frameCallback (Some 16) s0) = 0" "waitTimer (frameCallback (Some 16) s0) = 16"
    using a by simp_all
  ultimately show ?thesis using b s1(4) unfolding s0_def s1_def by (intro conjI)
qed


section \<open>Gestures\<close>

text \<open>
  C5. A gesture move sets the cursor to \<open>clamp(start + delta, 0, N - 1)\<close>, where \<open>start\<close> is
  the cursor recorded when the gesture began and \<open>delta\<close> is \<open>-dy * 0.02\<close> in column mode and
  \<open>-dx * 0.02 * 0.2\<close> in ticker mode, every operation being the double-precision one. A
  vertical drag of 100 units gives a delta of exactly 2 words, with the sign opposite to the
  drag.
\<close>

theorem C5_gesture_move:
  "progress (onPanResponderMove dx dy s) =
     clamp (js_add (startProgressRef s)
              (if isTickerMode s
               then js_mul (js_mul (- dx) sensitivity) (fl (2 / 10))
               else js_mul (- dy) sensitivity))
       0 (of_nat (contentLength s) - 1)
   \<and> js_mul (- (- 100)) sensitivity = 2
   \<and> js_mul (- 100) sensitivity = - 2"
  using drag_100_delta drag_minus_100_delta
  by (simp add: onPanResponderMove_def clamp_def Let_def lastIndex_def min_def max_def)

text \<open>
  A book of 1000 words read in column mode from word 5: an upward drag of 100 units moves
  the cursor to word 7, and the same drag from word 999 is stopped at the last word.
\<close>

theorem C5_witness:
  "progress (run (loaded 1000 (Some 5)) [Grant, Move 0 (- 100)]) = 7
   \<and> progress (run (loaded 1000 (Some 999)) [Grant, Move 0 (- 100)]) = 999"
proof -
  have s: "startProgressRef (onPanResponderGrant (loaded 1000 (Some c))) = orElse (Some c) 0"
    "isTickerMode (onPanResponderGrant (loaded 1000 (Some c))) = False"
    "contentLength (onPanResponderGrant (loaded 1000 (Some c))) = 1000" for c
    by (simp_all add: onPanResponderGrant_def loaded_def)
  have a: "js_add 5 2 = 7" "js_add 999 2 = 1001"
    by (simp_all add: js_add_def fl_numeral)
  show ?thesis
    using C5_gesture_move[of 0 "- 100" "onPanResponderGrant (loaded 1000 (Some 5))"]
      C5_gesture_move[of 0 "- 100" "onPanResponderGrant (loaded 1000 (Some 999))"]
    by (simp add: run_def s a orElse_def clamp_def)
qed


lemma Math_round_Ints: "Math_round x \<in> \<int>"
  by (simp add: Math_round_def)

lemma Math_round_near: "\<bar>Math_round x - x\<bar> \<le> 1 / 2"
proof -
  have "of_int \<lfloor>x + 1 / 2\<rfloor> \<le> x + 1 / 2" "x + 1 / 2 < of_int \<lfloor>x + 1 / 2\<rfloor> + 1"
    by linarith+
  then show ?thesis unfolding Math_round_def by linarith
qed

text \<open>
  C6. A release whose exit velocity (\<open>-vy * 20\<close>, or \<open>-vx * 20\<close> in ticker mode) is below
  0.5 in absolute value starts the easing of the cursor towards \<open>Math.round\<close> of its value;
  when that easing has run to its end the cursor is that integer, which is within one half
  of the value at release, and the gesture no longer holds the cursor.
\<close>

theorem C6_release_snaps_to_integer:
  assumes "\<bar>if isTickerMode s then js_mul (- vx) 20 else js_mul (- vy) 20\<bar> < 1 / 2"
  shows "running (onPanResponderRelease vx vy s) = Some (Timing (Math_round (progress s)))
    \<and> progress (animationFinished rest (onPanResponderRelease vx vy s)) = Math_round (progress s)
    \<and> progress (animationFinished rest (onPanResponderRelease vx vy s)) \<in> \<int>
    \<and> \<bar>progress (animationFinished rest (onPanResponderRelease vx vy s)) - progress s\<bar> \<le> 1 / 2
    \<and> isInteracting (animationFinished rest (onPanResponderRelease vx vy s)) = False"
proof -
  have r: "running (onPanResponderRelease vx vy s) = Some (Timing (Math_round (progress s)))"
    using assms by (auto simp: onPanResponderRelease_def snapToNearest_def Let_def)
  then have p: "progress (animationFinished rest (onPanResponderRelease vx vy s)) = Math_round (progress s)"
    and i: "isInteracting (animationFinished rest (onPanResponderRelease vx vy s)) = False"
    by (simp_all add: animationFinished_def)
  show ?thesis using r p i Math_round_Ints Math_round_near by simp
qed

text \<open>
  A drag from word 5 by 110 units leaves the cursor at 7.2; a release at rest then settles
  on word 7.
\<close>

theorem C6_witness:
  "progress (run (loaded 1000 (Some 5)) [Grant, Move 0 (- 110)]) = 8106479329266893 / 1125899906842624
   \<and> \<bar>js_mul (- 0) 20\<bar> < 1 / 2
   \<and> progress (run (loaded 1000 (Some 5)) [Grant, Move 0 (- 110), Release 0 0, Finished 0]) = 7"
proof -
  define s where "s = run (loaded 1000 (Some 5)) [Grant, Move 0 (- 110)]"
  have d: "js_mul 110 sensitivity = 2476979795053773 / 1125899906842624"
    by (simp add: js_mul_def sensitivity_value fl_large[where j=1] fl_eval)
  have a: "js_add 5 (2476979795053773 / 1125899906842624) = 8106479329266893 / 1125899906842624"
    by (simp add: js_add_def fl_large[where j=2] fl_eval)
  have p: "progress s = 8106479329266893 / 1125899906842624"
    by (simp add: s_def run_def loaded_def onPanResponderGrant_def onPanResponderMove_def
        orElse_def lastIndex_def Let_def d a)
  have t: "isTickerMode s = False"
    by (simp add: s_def run_def loaded_def onPanResponderGrant_def onPanResponderMove_def Let_def)
  have v: "\<bar>js_mul (- 0) 20\<bar> < 1 / 2"
    by (simp add: js_mul_def fl_0)
  have m: "Math_round (8106479329266893 / 1125899906842624) = 7"
    by (simp add: Math_round_def floor_rat_numeral_div)
  have r: "run (loaded 1000 (Some 5)) [Grant, Move 0 (- 110), Release 0 0, Finished 0]
      = animationFinished 0 (onPanResponderRelease 0 0 s)"
    by (simp add: s_def run_def)
  from C6_release_snaps_to_integer[of s 0 0 0] t v
  have q: "progress (animationFinished 0 (onPanResponderRelease 0 0 s)) = Math_round (progress s)"
    by simp
  have f: "progress (run (loaded 1000 (Some 5)) [Grant, Move 0 (- 110), Release 0 0, Finished 0]) = 7"
    by (simp only: r q p m)
  from p have p': "progress (run (loaded 1000 (Some 5)) [Grant, Move 0 (- 110)])
      = 8106479329266893 / 1125899906842624"
    by (simp only: s_def)
  from p' v f show ?thesis by (intro conjI)
qed


section \<open>The chapter indexer\<close>


















definition mixed_words :: "string list" where
  "mixed_words =
     [''Intro'', ''chapter'', ''iv.'', ''text'', ''CHAPITRE'', ''XII:'', ''suite'', ''chapter'',
      ''Chapter'', ''3'', ''more'', ''chapter'', ''one'', ''Chapters'', ''2'', ''CHAPTER'', ''1,'',
      ''end'', ''ChApItRe'', ''mdc'', ''chapter'']"




text \<open>The chapter loop itself, run on the words of \<open>mixed_text\<close>.\<close>

lemma mixed_text_scan:
  "scan_chapters mixed_words 0 [] =
     [\<lparr>title = ''chapter iv.'', index = 1\<rparr>, \<lparr>title = ''CHAPITRE XII:'', index = 4\<rparr>,
      \<lparr>title = ''Chapter 3'', index = 8\<rparr>, \<lparr>title = ''ChApItRe mdc'', index = 18\<rparr>]"
  by (simp add: mixed_words_def scan_chapters.simps toUpperCase_def upper_char_def case_pairs_def
      numeral_pattern_def is_digit_def is_roman_def marker_at_def Let_def)



section \<open>Narration boundaries\<close>

text \<open>
  The number of pieces into which \<open>split(/\s+/)\<close> cuts the first \<open>c\<close> characters of a chunk
  is the number of words of the chunk that start at or before \<open>c\<close>.
\<close>

lemma cumulative_offsets_shift:
  "cumulative_offsets ws (a + b) = map (\<lambda>off. off + b) (cumulative_offsets ws a)"
proof (induction ws arbitrary: a)
  case Nil
  then show ?case by simp
next
  case (Cons w ws)
  have e: "a + b + length w + 1 = (a + length w + 1) + b" by simp
  have "cumulative_offsets (w # ws) (a + b) = (a + b) # cumulative_offsets ws (a + b + length w + 1)"
    by simp
  also have "\<dots> = (a + b) # map (\<lambda>off. off + b) (cumulative_offsets ws (a + length w + 1))"
    unfolding e Cons.IH[of "a + length w + 1"] ..
  also have "\<dots> = map (\<lambda>off. off + b) (cumulative_offsets (w # ws) a)"
    by simp
  finally show ?case .
qed

lemma count_offsets_shift:
  "length (takeWhile (\<lambda>off. off \<le> c) (cumulative_offsets ws b)) =
     (if c < b then 0 else length (takeWhile (\<lambda>off. off \<le> c - b) (cumulative_offsets ws 0)))"
proof -
  have "cumulative_offsets ws b = map (\<lambda>off. off + b) (cumulative_offsets ws 0)"
    using cumulative_offsets_shift[of ws 0 b] by simp
  then have "takeWhile (\<lambda>off. off \<le> c) (cumulative_offsets ws b)
      = map (\<lambda>off. off + b) (takeWhile (\<lambda>off. off + b \<le> c) (cumulative_offsets ws 0))"
    by (simp add: takeWhile_map comp_def)
  then have l: "length (takeWhile (\<lambda>off. off \<le> c) (cumulative_offsets ws b))
      = length (takeWhile (\<lambda>off. off + b \<le> c) (cumulative_offsets ws 0))"
    by simp
  show ?thesis
  proof (cases "c < b")
    case True
    then have "(\<lambda>off. off + b \<le> c) = (\<lambda>off. False)" by auto
    moreover have "takeWhile (\<lambda>off. False) (cumulative_offsets ws 0) = []"
      by (cases "cumulative_offsets ws 0") simp_all
    ultimately show ?thesis using l True by simp
  next
    case False
    then have "(\<lambda>off. off + b \<le> c) = (\<lambda>off. off \<le> c - b)" by auto
    with l False show ?thesis by simp
  qed
qed

lemma is_space_blank: "is_space CHR '' ''"
  by (simp add: is_space_def)

lemma join_starts_with_word:
  "w \<noteq> [] \<Longrightarrow> join (w # ws) \<noteq> [] \<and> hd (join (w # ws)) = hd w"
  by (cases ws) auto

lemma dropWhile_take_id:
  "xs \<noteq> [] \<Longrightarrow> \<not> P (hd xs) \<Longrightarrow> dropWhile P (take n xs) = take n xs"
  by (cases xs; cases n) auto

lemma js_split_word:
  "\<forall>c \<in> set w. \<not> is_space c \<Longrightarrow> js_split (take n w) = [take n w]"
proof -
  assume "\<forall>c \<in> set w. \<not> is_space c"
  then have "\<forall>c \<in> set (take n w). \<not> is_space c" by (auto dest: in_set_takeD)
  then have "dropWhile (\<lambda>c. \<not> is_space c) (take n w) = []" by simp
  from js_split_last[OF this] show ?thesis
    using \<open>\<forall>c \<in> set (take n w). \<not> is_space c\<close> by (simp add: takeWhile_eq_all_conv)
qed

lemma js_split_word_blank:
  assumes "\<forall>c \<in> set w. \<not> is_space c"
  shows "js_split (w @ CHR '' '' # t) = w # js_split (dropWhile is_space t)"
proof -
  have t: "takeWhile (\<lambda>c. \<not> is_space c) (w @ CHR '' '' # t) = w"
    using assms by (simp add: takeWhile_append2 is_space_blank)
  have d: "dropWhile (\<lambda>c. \<not> is_space c) (w @ CHR '' '' # t) = CHR '' '' # t"
    using assms by (simp add: dropWhile_append2 is_space_blank)
  then have "dropWhile (\<lambda>c. \<not> is_space c) (w @ CHR '' '' # t) \<noteq> []" by simp
  from js_split_more[OF this] show ?thesis by (simp add: t d is_space_blank)
qed

lemma split_count_eq_offset_count:
  assumes "ws \<noteq> []" "\<forall>w \<in> set ws. w \<noteq> [] \<and> (\<forall>c \<in> set w. \<not> is_space c)"
  shows "length (js_split (take c (join ws)))
      = length (takeWhile (\<lambda>off. off \<le> c) (cumulative_offsets ws 0))"
  using assms
proof (induction ws arbitrary: c rule: join.induct)
  case 1
  then show ?case by simp
next
  case (2 w)
  then show ?case by (simp add: js_split_word)
next
  case (3 w v ws)
  from "3.prems" have w: "\<forall>c \<in> set w. \<not> is_space c" and v: "v \<noteq> []" "\<not> is_space (hd v)"
    by auto
  have rest: "\<forall>u \<in> set (v # ws). u \<noteq> [] \<and> (\<forall>c \<in> set u. \<not> is_space c)"
    using "3.prems" by simp
  show ?case
  proof (cases "c \<le> length w")
    case True
    then have "take c (join (w # v # ws)) = take c w" by simp
    moreover have "length (takeWhile (\<lambda>off. off \<le> c) (cumulative_offsets (w # v # ws) 0)) = 1"
      using True by simp
    ultimately show ?thesis by (simp add: js_split_word[OF w])
  next
    case False
    define c' where "c' = c - (length w + 1)"
    from False have c: "c = length w + 1 + c'" by (simp add: c'_def)
    have tk: "take c (join (w # v # ws)) = w @ CHR '' '' # take c' (join (v # ws))"
      by (simp add: c)
    have dw: "dropWhile is_space (take c' (join (v # ws))) = take c' (join (v # ws))"
      using join_starts_with_word[OF v(1), of ws] v(2) by (intro dropWhile_take_id) auto
    have "js_split (take c (join (w # v # ws))) = w # js_split (take c' (join (v # ws)))"
      by (simp only: tk js_split_word_blank[OF w] dw)
    then have "length (js_split (take c (join (w # v # ws))))
        = 1 + length (js_split (take c' (join (v # ws))))"
      by simp
    also have "\<dots> = 1 + length (takeWhile (\<lambda>off. off \<le> c') (cumulative_offsets (v # ws) 0))"
      using "3.IH"[OF _ rest, of c'] by simp
    also have "\<dots> = length (takeWhile (\<lambda>off. off \<le> c) (cumulative_offsets (w # v # ws) 0))"
      using count_offsets_shift[of c "v # ws" "length w + 1"] False
      by (simp add: c'_def)
    finally show ?thesis .
  qed
qed

lemma chunk_of_startSpeaking:
  assumes "startSpeaking content True s0 = Some n"
  shows "textToRead n = join (js_slice content (startIndex n) (startIndex n + 100))"
    and "startIndex n = \<lfloor>progress s0 + 1 / 2\<rfloor>"
  using assms by (auto simp: startSpeaking_def Let_def split: if_splits)

text \<open>
  C8. A narration boundary event with a character offset \<open>charIndex\<close> inside the spoken
  chunk, arriving while narration owns the cursor (the interacting flag is clear; the events
  of the other case are discarded), sets the cursor to \<open>chunkStart + wordOffset\<close>. The chunk
  is the slice of up to 100 words that \<open>startSpeaking\<close> took from the words of
  \<open>processBookText\<close> at \<open>chunkStart\<close>, and \<open>wordOffset\<close> is the position of the last word of the
  chunk whose cumulative character offset is at most \<open>charIndex\<close>. For the chunk text
  "the quick brown fox" and \<open>charIndex = 10\<close> the word offset is 2 and the cursor is set to
  \<open>chunkStart + 2\<close>.
\<close>

theorem C8_boundary_sets_cursor:
  assumes "content = words (processBookText t)"
    and "startSpeaking content True s0 = Some n"
    and "\<not> isInteracting s"
    and "0 \<le> charIndex" and "charIndex < int (length (textToRead n))"
  shows "progress (onBoundary n charIndex s) =
      of_int (startIndex n
        + spec_word_offset (js_slice content (startIndex n) (startIndex n + 100)) (nat charIndex))
    \<and> spec_word_offset [''the'', ''quick'', ''brown'', ''fox''] 10 = 2
    \<and> progress (onBoundary \<lparr>startIndex = k, textToRead = ''the quick brown fox''\<rparr> 10 s)
        = of_int (k + 2)"
proof -
  define chunk where "chunk = js_slice content (startIndex n) (startIndex n + 100)"
  note c = chunk_of_startSpeaking[OF assms(2), folded chunk_def]
  from assms(4,5) have "textToRead n \<noteq> []" by auto
  with c(1) have ne: "chunk \<noteq> []" by auto
  have "set chunk \<subseteq> set content" unfolding chunk_def by (rule set_js_slice)
  with assms(1) words_tokens have good: "\<forall>w \<in> set chunk. w \<noteq> [] \<and> (\<forall>c \<in> set w. \<not> is_space c)"
    by blast
  have "int (length (js_split (take (nat charIndex) (textToRead n)))) - 1
      = spec_word_offset chunk (nat charIndex)"
    unfolding c(1) split_count_eq_offset_count[OF ne good] spec_word_offset_def ..
  then have 1: "progress (onBoundary n charIndex s) =
      of_int (startIndex n + spec_word_offset chunk (nat charIndex))"
    using assms(3) by (simp add: onBoundary_def Let_def)
  have 2: "spec_word_offset [''the'', ''quick'', ''brown'', ''fox''] 10 = 2"
    by (simp add: spec_word_offset_def)
  have "js_split (take (nat 10) ''the quick brown fox'') = [''the'', ''quick'', []]"
    by (simp add: js_split.simps is_space_def)
  then have 3: "progress (onBoundary \<lparr>startIndex = k, textToRead = ''the quick brown fox''\<rparr> 10 s)
        = of_int (k + 2)"
    using assms(3) by (simp add: onBoundary_def Let_def)
  from 1 2 3 show ?thesis unfolding chunk_def by (intro conjI)
qed

text \<open>
  Seven words, the second and the third separated by a no-break space, and narration started
  at word 3: the chunk is "the quick brown fox", and the boundary at character 10 moves the
  cursor from 3 to 5.
\<close>

definition fox_text :: string where
  "fox_text = ''a b'' @ [CHR 0xA0] @ ''c the quick brown fox''"

lemma fox_words:
  "words (processBookText fox_text)
     = [''a'', ''b'', ''c'', ''the'', ''quick'', ''brown'', ''fox'']"
proof -
  have "CHR ''*'' \<notin> set fox_text"
    by (simp add: fox_text_def)
  moreover have "js_split (replace_crlf fox_text)
      = [''a'', ''b'', ''c'', ''the'', ''quick'', ''brown'', ''fox'']"
    by (simp add: fox_text_def js_split.simps is_space_def)
  ultimately show ?thesis
    by (simp add: words_no_star)
qed

theorem C8_witness:
  "startSpeaking (words (processBookText fox_text)) True (loaded 7 (Some 3))
     = Some \<lparr>startIndex = 3, textToRead = ''the quick brown fox''\<rparr>
   \<and> isInteracting (loaded 7 (Some 3)) = False
   \<and> (10::int) < int (length ''the quick brown fox'')
   \<and> progress (loaded 7 (Some 3)) = 3
   \<and> progress (onBoundary \<lparr>startIndex = 3, textToRead = ''the quick brown fox''\<rparr> 10
         (loaded 7 (Some 3))) = 5"
proof -
  define s where "s = loaded 7 (Some 3)"
  have s: "progress s = 3" "isInteracting s = False"
    by (simp_all add: s_def loaded_def orElse_def)
  have st: "startSpeaking (words (processBookText fox_text)) True s
     = Some \<lparr>startIndex = 3, textToRead = ''the quick brown fox''\<rparr>"
    by (simp add: fox_words startSpeaking_def s js_slice_def Let_def floor_rat_numeral_div)
  have i: "(10::int) < int (length ''the quick brown fox'')" by simp
  from C8_boundary_sets_cursor[OF refl st, of s 10 3] s
  have "progress (onBoundary \<lparr>startIndex = 3, textToRead = ''the quick brown fox''\<rparr> 10 s) = 5"
    by simp
  with st s i show ?thesis unfolding s_def by (intro conjI)
qed

section \<open>The translation of the continuous renderer\<close>

text \<open>
  C9, as stated, fails while the window is empty: with an empty offset table every local
  index is outside the table, and the renderer returns the translation 0, not the centre
  200 of a screen 400 wide.
\<close>

theorem C9_counterexample:
  "\<not> (0 \<le> \<lfloor>3 :: number\<rfloor> - 0 \<and> \<lfloor>3 :: number\<rfloor> - 0 < int (length ([] :: nat list)))
   \<and> containerStyle \<lparr>windowWordOffsets = [], activeWindowStartWord = 0, windowText = []\<rparr> 400 13 3
       = Some 0
   \<and> js_div 400 2 = 200
   \<and> containerStyle \<lparr>windowWordOffsets = [], activeWindowStartWord = 0, windowText = []\<rparr> 400 13 3
       \<noteq> Some (js_div 400 2)"
  by (simp add: containerStyle_def int_arith)

text \<open>
  C9, amended. \<open>containerStyle\<close> never reads the offset table outside its bounds. When the
  local index \<open>floor(cursor) - windowStart\<close> is outside the table, the translation is the safe
  default: the centre of the screen, \<open>screenW / 2\<close>, or 0 while the window is empty (no
  offsets or no window text).
\<close>

theorem C9_safe_default:
  "containerStyle win screenW charWidth idx \<noteq> None
   \<and> (\<lfloor>idx\<rfloor> - activeWindowStartWord win < 0
        \<or> int (length (windowWordOffsets win)) \<le> \<lfloor>idx\<rfloor> - activeWindowStartWord win \<longrightarrow>
      containerStyle win screenW charWidth idx =
        Some (if windowWordOffsets win = [] \<or> windowText win = [] then 0 else js_div screenW 2))"
proof -
  have "containerStyle win screenW charWidth idx \<noteq> None"
    by (simp add: containerStyle_def js_index_def Let_def)
  moreover have "\<lfloor>idx\<rfloor> - activeWindowStartWord win < 0
        \<or> int (length (windowWordOffsets win)) \<le> \<lfloor>idx\<rfloor> - activeWindowStartWord win \<longrightarrow>
      containerStyle win screenW charWidth idx =
        Some (if windowWordOffsets win = [] \<or> windowText win = [] then 0 else js_div screenW 2)"
    by (auto simp: containerStyle_def Let_def)
  ultimately show ?thesis by (intro conjI)
qed

text \<open>
  The window of "the quick brown fox" on a screen 400 wide with characters 13 wide: the
  cursor 4.5 is past the four offsets and gives the centre 200; the cursor 2.5, half-way
  through "brown", gives 200 - 12.5 * 13 = 37.5.
\<close>

theorem C9_witness:
  "windowWordOffsets (updateWindow [''the'', ''quick'', ''brown'', ''fox''] 2
       \<lparr>windowWordOffsets = [], activeWindowStartWord = 0, windowText = []\<rparr>) = [0, 4, 10, 16]
   \<and> containerStyle (updateWindow [''the'', ''quick'', ''brown'', ''fox''] 2
       \<lparr>windowWordOffsets = [], activeWindowStartWord = 0, windowText = []\<rparr>) 400 13 (9 / 2)
       = Some 200
   \<and> containerStyle (updateWindow [''the'', ''quick'', ''brown'', ''fox''] 2
       \<lparr>windowWordOffsets = [], activeWindowStartWord = 0, windowText = []\<rparr>) 400 13 (5 / 2)
       = Some (75 / 2)"
proof -
  define win where "win = updateWindow [''the'', ''quick'', ''brown'', ''fox''] 2
       \<lparr>windowWordOffsets = [], activeWindowStartWord = 0, windowText = []\<rparr>"
  have w: "win = \<lparr>windowWordOffsets = [0, 4, 10, 16], activeWindowStartWord = 0,
       windowText = ''the quick brown fox''\<rparr>"
    by (simp add: win_def updateWindow_def js_slice_def WINDOW_BACK_def WINDOW_WORDS_def Let_def)
  have o: "windowWordOffsets win = [0, 4, 10, 16]" by (simp add: w)
  have f: "\<lfloor>9 / 2 :: number\<rfloor> = 4" "\<lfloor>5 / 2 :: number\<rfloor> = 2"
    by (simp_all add: floor_rat_numeral_div)
  have d: "js_div 400 2 = 200" by (simp add: int_arith)
  from C9_safe_default[of win 400 13 "9 / 2"]
  have a: "containerStyle win 400 13 (9 / 2) = Some 200"
    by (simp add: w f d)
  have e: "js_sub (5 / 2) 2 = 1 / 2" "js_sub 16 10 = 6" "js_sub 6 1 = 5" "js_mul 5 (1 / 2) = 5 / 2"
    "js_add 10 (5 / 2) = 25 / 2" "js_mul (25 / 2) 13 = 325 / 2" "js_sub 200 (325 / 2) = 75 / 2"
    by (simp_all add: js_sub_def js_mul_def js_add_def fl_numeral fl_eval fl_small[where j=1]
        fl_large[where j=1] fl_large[where j=3] fl_large[where j=7] fl_large[where j=5])
  have b: "containerStyle win 400 13 (5 / 2) = Some (75 / 2)"
    by (simp add: containerStyle_def w f d e js_index_def Let_def)
  from o a b show ?thesis unfolding win_def by (intro conjI)
qed


section \<open>Tokens and their offsets\<close>

lemma length_localOffsets: "length (localOffsets ws acc) = length ws"
  by (induction ws arbitrary: acc) simp_all

lemma localOffsets_step:
  "i + 1 < length ws \<Longrightarrow>
     localOffsets ws acc ! (i + 1) = localOffsets ws acc ! i + (length (ws ! i) + 1)"
proof (induction ws arbitrary: acc i)
  case Nil
  then show ?case by simp
next
  case (Cons w ws)
  show ?case
  proof (cases i)
    case 0
    with Cons.prems show ?thesis by (cases ws) simp_all
  next
    case (Suc j)
    with Cons.prems have "j + 1 < length ws" by simp
    from Cons.IH[OF this] Suc show ?thesis by simp
  qed
qed

text \<open>
  C10. Every word returned by \<open>processBookText\<close> is non-empty and free of white space: it
  holds none of the characters at which \<open>split(/\s+/)\<close> cuts, the blank, the tab, the line
  feed, the vertical tab, the form feed, the carriage return and the no-break space. So in
  the offset table that \<open>updateWindow\<close> builds from any window of these words each offset
  exceeds the one before it by the length of the word plus one separator, at least 2.
\<close>

theorem C10_tokens_and_offsets:
  assumes "ws = words (processBookText t)"
  shows "(\<forall>w \<in> set ws. w \<noteq> []
            \<and> set w \<inter> {CHR '' '', CHR 0x09, CHR 0x0A, CHR 0x0B, CHR 0x0C, CHR 0x0D, CHR 0xA0} = {})
    \<and> (ws \<noteq> [] \<longrightarrow>
         (\<forall>i. i + 1 < length (windowWordOffsets (updateWindow ws centerWord win)) \<longrightarrow>
            windowWordOffsets (updateWindow ws centerWord win) ! i + 2
              \<le> windowWordOffsets (updateWindow ws centerWord win) ! (i + 1)))"
proof (intro conjI impI allI ballI)
  fix w assume "w \<in> set ws"
  with assms words_tokens show "w \<noteq> []" by blast
next
  fix w assume "w \<in> set ws"
  with assms words_tokens have "\<forall>c \<in> set w. \<not> is_space c" by blast
  then show "set w \<inter> {CHR '' '', CHR 0x09, CHR 0x0A, CHR 0x0B, CHR 0x0C, CHR 0x0D, CHR 0xA0} = {}"
    unfolding is_space_def by blast
next
  fix i
  define sl where "sl = js_slice ws (max 0 (centerWord - WINDOW_BACK))
      (min (int (length ws)) (max 0 (centerWord - WINDOW_BACK) + WINDOW_WORDS))"
  assume ne: "ws \<noteq> []"
  then have offs: "windowWordOffsets (updateWindow ws centerWord win) = localOffsets sl 0"
    by (simp add: updateWindow_def Let_def sl_def)
  assume "i + 1 < length (windowWordOffsets (updateWindow ws centerWord win))"
  then have i: "i + 1 < length sl" by (simp add: offs length_localOffsets)
  then have "sl ! i \<in> set sl" by simp
  moreover have "set sl \<subseteq> set ws" unfolding sl_def by (rule set_js_slice)
  ultimately have "sl ! i \<in> set ws" by blast
  with assms words_tokens have "sl ! i \<noteq> []" by blast
  then have "1 \<le> length (sl ! i)" by (simp add: Suc_le_eq)
  with localOffsets_step[OF i, of 0] show
    "windowWordOffsets (updateWindow ws centerWord win) ! i + 2
       \<le> windowWordOffsets (updateWindow ws centerWord win) ! (i + 1)"
    by (simp add: offs)
qed

text \<open>
  In \<open>spaced_text\<close> the words are separated by doubled blanks, a line feed, a tab with a
  no-break space, and a carriage return with a line feed, a vertical tab and a form feed;
  the last word holds the control character U+0085 and the soft hyphen U+00AD, which are no
  white space. The text gives five words, and the window around word 2 has the offsets
  0, 4, 10, 16 and 20.
\<close>

definition spaced_text :: string where
  "spaced_text =
     ''  the quick'' @ [CHR 0x0A] @ ''brown'' @ [CHR 0x09, CHR 0xA0] @ ''fox''
     @ [CHR 0x0D, CHR 0x0A, CHR 0x0B, CHR 0x0C] @ ''a'' @ [CHR 0x85, CHR 0xAD] @ ''b ''"

definition spaced_words :: "string list" where
  "spaced_words = [''the'', ''quick'', ''brown'', ''fox'', ''a'' @ [CHR 0x85, CHR 0xAD] @ ''b'']"

lemma spaced_text_words: "words (processBookText spaced_text) = spaced_words"
proof -
  have "CHR ''*'' \<notin> set spaced_text"
    by (simp add: spaced_text_def)
  moreover have "js_split (replace_crlf spaced_text) = [] # spaced_words @ [[]]"
    by (simp add: spaced_text_def spaced_words_def js_split.simps is_space_def)
  ultimately show ?thesis
    by (simp add: words_no_star spaced_words_def)
qed

theorem C10_witness:
  "words (processBookText spaced_text) = spaced_words
   \<and> ''a'' @ [CHR 0x85, CHR 0xAD] @ ''b'' \<in> set (words (processBookText spaced_text))
   \<and> set (''a'' @ [CHR 0x85, CHR 0xAD] @ ''b'')
       \<inter> {CHR '' '', CHR 0x09, CHR 0x0A, CHR 0x0B, CHR 0x0C, CHR 0x0D, CHR 0xA0} = {}
   \<and> windowWordOffsets (updateWindow (words (processBookText spaced_text)) 2
         \<lparr>windowWordOffsets = [], activeWindowStartWord = 0, windowText = []\<rparr>) = [0, 4, 10, 16, 20]
   \<and> windowWordOffsets (updateWindow (words (processBookText spaced_text)) 2
         \<lparr>windowWordOffsets = [], activeWindowStartWord = 0, windowText = []\<rparr>) ! 1 + 2
       \<le> windowWordOffsets (updateWindow (words (processBookText spaced_text)) 2
         \<lparr>windowWordOffsets = [], activeWindowStartWord = 0, windowText = []\<rparr>) ! 2"
proof -
  define win where "win = \<lparr>windowWordOffsets = [], activeWindowStartWord = 0, windowText = []\<rparr>"
  note C10 = C10_tokens_and_offsets[OF refl, of spaced_text 2 win]
  have o: "windowWordOffsets (updateWindow (words (processBookText spaced_text)) 2 win)
      = [0, 4, 10, 16, 20]"
    by (simp add: spaced_text_words spaced_words_def updateWindow_def js_slice_def
        WINDOW_BACK_def WINDOW_WORDS_def Let_def)
  have n: "words (processBookText spaced_text) \<noteq> []"
    by (simp add: spaced_text_words spaced_words_def)
  have l: "1 + 1 < length (windowWordOffsets (updateWindow (words (processBookText spaced_text)) 2 win))"
    by (simp add: o)
  have m: "''a'' @ [CHR 0x85, CHR 0xAD] @ ''b'' \<in> set (words (processBookText spaced_text))"
    by (simp add: spaced_text_words spaced_words_def)
  from C10 m have t: "set (''a'' @ [CHR 0x85, CHR 0xAD] @ ''b'')
       \<inter> {CHR '' '', CHR 0x09, CHR 0x0A, CHR 0x0B, CHR 0x0C, CHR 0x0D, CHR 0xA0} = {}"
    by blast
  from C10 n l
  have "windowWordOffsets (updateWindow (words (processBookText spaced_text)) 2 win) ! 1 + 2
       \<le> windowWordOffsets (updateWindow (words (processBookText spaced_text)) 2 win) ! (1 + 1)"
    by blast
  then have "windowWordOffsets (updateWindow (words (processBookText spaced_text)) 2 win) ! 1 + 2
       \<le> windowWordOffsets (updateWindow (words (processBookText spaced_text)) 2 win) ! 2"
    by (simp only: one_add_one)
  with spaced_text_words m t o show ?thesis unfolding win_def by (intro conjI)
qed

end
